theory Spec2Isabelle
  imports Main "HOL-Library.Word" "HOL-Library.List_Lexorder" "HOL-Library.Multiset"
begin

unbundle bit_operations_syntax

section \<open>The Result type and its combinators\<close>

text \<open>
  \<^verbatim>\<open>src/types/result.ts\<close> and the \<^verbatim>\<open>Result\<close> object of \<^verbatim>\<open>types.ts\<close> both work on
  the tagged union \<^verbatim>\<open>{ ok: true; value: T } | { ok: false; error: E }\<close>. The tag
  \<^verbatim>\<open>ok\<close> is the constructor of the datatype.
\<close>

datatype ('t, 'e) Result = Ok (val: 't) | Err (error: 'e)

text \<open>
  A callback handed to a combinator is a JavaScript function: besides returning a
  value it may change the ambient state (the spy of a test counts its calls there).
  It is modelled by explicit state passing: the callback takes the state and returns
  its result with the new state, and so does every combinator that takes a callback.
  A total, side-effect free callback \<open>f\<close> is \<open>\<lambda>x s. (f x, s)\<close>.
\<close>

type_synonym ('a, 'b, 's) callback = "'a \<Rightarrow> 's \<Rightarrow> 'b \<times> 's"

subsection \<open>\<^verbatim>\<open>src/types/result.ts\<close>\<close>

definition ok :: "'t \<Rightarrow> ('t, 'e) Result" where
  "ok v = Ok v"

definition err :: "'e \<Rightarrow> ('t, 'e) Result" where
  "err e = Err e"

definition isOk :: "('t, 'e) Result \<Rightarrow> bool" where
  "isOk result = (case result of Ok _ \<Rightarrow> True | Err _ \<Rightarrow> False)"

definition isErr :: "('t, 'e) Result \<Rightarrow> bool" where
  "isErr result = (\<not> (case result of Ok _ \<Rightarrow> True | Err _ \<Rightarrow> False))"

text \<open>\<^verbatim>\<open>unwrap\<close> throws \<^verbatim>\<open>result.error\<close> itself: \<open>Inl\<close> carries the thrown value.\<close>

definition unwrap :: "('t, 'e) Result \<Rightarrow> 'e + 't" where
  "unwrap result = (case result of Err e \<Rightarrow> Inl e | Ok v \<Rightarrow> Inr v)"

definition unwrapOr :: "('t, 'e) Result \<Rightarrow> 't \<Rightarrow> 't" where
  "unwrapOr result defaultValue = (case result of Ok v \<Rightarrow> v | Err _ \<Rightarrow> defaultValue)"

definition map_result ::
  "('t, 'e) Result \<Rightarrow> ('t, 'u, 's) callback \<Rightarrow> 's \<Rightarrow> ('u, 'e) Result \<times> 's" where
  "map_result result fn s =
     (case result of
        Ok v \<Rightarrow> (case fn v s of (u, s') \<Rightarrow> (ok u, s'))
      | Err e \<Rightarrow> (Err e, s))"

definition mapErr ::
  "('t, 'e) Result \<Rightarrow> ('e, 'f, 's) callback \<Rightarrow> 's \<Rightarrow> ('t, 'f) Result \<times> 's" where
  "mapErr result fn s =
     (case result of
        Ok v \<Rightarrow> (Ok v, s)
      | Err e \<Rightarrow> (case fn e s of (f, s') \<Rightarrow> (err f, s')))"

definition chain ::
  "('t, 'e) Result \<Rightarrow> ('t, ('u, 'e) Result, 's) callback \<Rightarrow> 's \<Rightarrow> ('u, 'e) Result \<times> 's" where
  "chain result fn s =
     (case result of
        Ok v \<Rightarrow> fn v s
      | Err e \<Rightarrow> (Err e, s))"

subsection \<open>The \<^verbatim>\<open>Result\<close> object of \<^verbatim>\<open>types.ts\<close>\<close>

definition Result_ok :: "'t \<Rightarrow> ('t, 'e) Result" where
  "Result_ok v = Ok v"

definition Result_err :: "'e \<Rightarrow> ('t, 'e) Result" where
  "Result_err e = Err e"

definition Result_isOk :: "('t, 'e) Result \<Rightarrow> bool" where
  "Result_isOk result = (case result of Ok _ \<Rightarrow> True | Err _ \<Rightarrow> False)"

definition Result_isErr :: "('t, 'e) Result \<Rightarrow> bool" where
  "Result_isErr result = (\<not> (case result of Ok _ \<Rightarrow> True | Err _ \<Rightarrow> False))"

definition Result_map ::
  "('t, 'e) Result \<Rightarrow> ('t, 'u, 's) callback \<Rightarrow> 's \<Rightarrow> ('u, 'e) Result \<times> 's" where
  "Result_map result fn s =
     (case result of
        Ok v \<Rightarrow> (case fn v s of (u, s') \<Rightarrow> (Ok u, s'))
      | Err e \<Rightarrow> (Err e, s))"

definition Result_mapErr ::
  "('t, 'e) Result \<Rightarrow> ('e, 'f, 's) callback \<Rightarrow> 's \<Rightarrow> ('t, 'f) Result \<times> 's" where
  "Result_mapErr result fn s =
     (case result of
        Ok v \<Rightarrow> (Ok v, s)
      | Err e \<Rightarrow> (case fn e s of (f, s') \<Rightarrow> (Err f, s')))"

definition Result_unwrap :: "('t, 'e) Result \<Rightarrow> 'e + 't" where
  "Result_unwrap result = (case result of Ok v \<Rightarrow> Inr v | Err e \<Rightarrow> Inl e)"

definition Result_unwrapOr :: "('t, 'e) Result \<Rightarrow> 't \<Rightarrow> 't" where
  "Result_unwrapOr result defaultValue = (case result of Ok v \<Rightarrow> v | Err _ \<Rightarrow> defaultValue)"

section \<open>JavaScript values\<close>

text \<open>
  A JavaScript string is a sequence of 16-bit code units; \<^verbatim>\<open>length\<close>,
  \<^verbatim>\<open>charCodeAt\<close>, \<^verbatim>\<open>startsWith\<close>, \<^verbatim>\<open>trim\<close> and the default order of
  \<^verbatim>\<open>Array.prototype.sort\<close> all work on code units. \<open>js\<close> writes a literal.
\<close>

type_synonym jsstring = "16 word list"

definition js :: "string \<Rightarrow> jsstring" where
  "js s = map of_char s"

text \<open>
  The values that reach the validators and the fingerprint as \<^verbatim>\<open>unknown\<close>: the
  plain data of JSON and \<^verbatim>\<open>undefined\<close>. The numbers are the integers a double holds
  exactly and prints as plain decimal digits (magnitude up to \<open>2\<^sup>5\<^sup>3\<close>), and
  \<^verbatim>\<open>NaN\<close>, which has the type \<^verbatim>\<open>number\<close> and is no number to the engine; fractions
  and the infinities are outside the model. An object is the list of its own enumerable
  properties in the order \<^verbatim>\<open>Object.keys\<close> lists them, and a well-formed object has no
  key twice. Functions, symbols, class instances, getters, \<^verbatim>\<open>toJSON\<close> methods and
  properties found only on a prototype are outside the model.
\<close>

datatype unknown =
    JUndefined
  | JNull
  | JBoolean bool
  | JNumber int
  | JNaN
  | JString jsstring
  | JArray "unknown list"
  | JObject "(jsstring \<times> unknown) list"

text \<open>\<^verbatim>\<open>holder[key]\<close> on an object: the own property, or \<^verbatim>\<open>undefined\<close>.\<close>

definition Get :: "(jsstring \<times> unknown) list \<Rightarrow> jsstring \<Rightarrow> unknown" where
  "Get props key = (case map_of props key of Some v \<Rightarrow> v | None \<Rightarrow> JUndefined)"

subsection \<open>String operations of the runtime\<close>

definition startsWith :: "jsstring \<Rightarrow> jsstring \<Rightarrow> bool" where
  "startsWith str searchString = (take (length searchString) str = searchString)"

text \<open>
  \<^verbatim>\<open>trim\<close> removes leading and trailing white space and line terminators: TAB, LF,
  VT, FF, CR, SPACE, NBSP, the other space separators of Unicode (category Zs), LS, PS
  and the byte order mark.
\<close>

definition isWhiteSpace :: "16 word \<Rightarrow> bool" where
  "isWhiteSpace c =
     (c = 0x0009 \<or> c = 0x000A \<or> c = 0x000B \<or> c = 0x000C \<or> c = 0x000D \<or> c = 0x0020
      \<or> c = 0x00A0 \<or> c = 0x1680 \<or> (0x2000 \<le> c \<and> c \<le> 0x200A) \<or> c = 0x2028
      \<or> c = 0x2029 \<or> c = 0x202F \<or> c = 0x205F \<or> c = 0x3000 \<or> c = 0xFEFF)"

definition trim :: "jsstring \<Rightarrow> jsstring" where
  "trim str = rev (dropWhile isWhiteSpace (rev (dropWhile isWhiteSpace str)))"

text \<open>\<^verbatim>\<open>Array.prototype.join\<close> on an array of strings.\<close>

fun join :: "jsstring \<Rightarrow> jsstring list \<Rightarrow> jsstring" where
  "join sep [] = []"
| "join sep [x] = x"
| "join sep (x # y # ys) = x @ sep @ join sep (y # ys)"

text \<open>
  \<^verbatim>\<open>Number.prototype.toString(radix)\<close> on a non-negative integer: its digits in the
  radix, from \<^verbatim>\<open>0123456789abcdefghijklmnopqrstuvwxyz\<close>.
\<close>

definition digitChar :: "nat \<Rightarrow> 16 word" where
  "digitChar d = (if d < 10 then 0x30 + of_nat d else 0x61 + of_nat (d - 10))"

function toStringRadix :: "nat \<Rightarrow> nat \<Rightarrow> jsstring" where
  "toStringRadix radix n =
     (if radix < 2 \<or> n < radix then [digitChar n]
      else toStringRadix radix (n div radix) @ [digitChar (n mod radix)])"
  by pat_completeness auto
termination
  by (relation "measure snd") auto

definition Number_toString :: "nat \<Rightarrow> int \<Rightarrow> jsstring" where
  "Number_toString radix n =
     (if n < 0 then js ''-'' @ toStringRadix radix (nat (- n)) else toStringRadix radix (nat n))"

declare toStringRadix.simps [simp del]

section \<open>\<^verbatim>\<open>JSON.stringify\<close> with a replacer array\<close>

text \<open>
  \<^verbatim>\<open>generateFingerprint\<close> calls \<^verbatim>\<open>JSON.stringify(data, replacer)\<close> with an array of
  strings or \<^verbatim>\<open>undefined\<close> as the replacer and no indentation. The functions below
  follow the abstract operations of the language specification.
\<close>

definition UnicodeEscape :: "16 word \<Rightarrow> jsstring" where
  "UnicodeEscape c =
     [0x005C, 0x0075] @ map (\<lambda>i. digitChar (unat (drop_bit i c AND 0xF))) [12, 8, 4, 0]"

definition isLeadingSurrogate :: "16 word \<Rightarrow> bool" where
  "isLeadingSurrogate c = (0xD800 \<le> c \<and> c \<le> 0xDBFF)"

definition isTrailingSurrogate :: "16 word \<Rightarrow> bool" where
  "isTrailingSurrogate c = (0xDC00 \<le> c \<and> c \<le> 0xDFFF)"

text \<open>One code unit that is not part of a surrogate pair, as \<^verbatim>\<open>QuoteJSONString\<close> writes it.\<close>

definition quoteCodeUnit :: "16 word \<Rightarrow> jsstring" where
  "quoteCodeUnit c =
     (if c = 0x0008 then [0x005C, 0x0062]
      else if c = 0x0009 then [0x005C, 0x0074]
      else if c = 0x000A then [0x005C, 0x006E]
      else if c = 0x000C then [0x005C, 0x0066]
      else if c = 0x000D then [0x005C, 0x0072]
      else if c = 0x0022 then [0x005C, 0x0022]
      else if c = 0x005C then [0x005C, 0x005C]
      else if c < 0x0020 \<or> isLeadingSurrogate c \<or> isTrailingSurrogate c then UnicodeEscape c
      else [c])"

fun quoteCodeUnits :: "jsstring \<Rightarrow> jsstring" where
  "quoteCodeUnits [] = []"
| "quoteCodeUnits [c] = quoteCodeUnit c"
| "quoteCodeUnits (c # d # cs) =
     (if isLeadingSurrogate c \<and> isTrailingSurrogate d then c # d # quoteCodeUnits cs
      else quoteCodeUnit c @ quoteCodeUnits (d # cs))"

definition QuoteJSONString :: "jsstring \<Rightarrow> jsstring" where
  "QuoteJSONString str = [0x0022] @ quoteCodeUnits str @ [0x0022]"

text \<open>
  The property list of a replacer array: its strings in order, each once (the first
  occurrence stays).
\<close>

definition PropertyList :: "jsstring list \<Rightarrow> jsstring list" where
  "PropertyList replacer =
     foldl (\<lambda>list item. if item \<in> set list then list else list @ [item]) [] replacer"

text \<open>
  \<^verbatim>\<open>SerializeJSONProperty\<close>, given the property's value, with
  \<^verbatim>\<open>SerializeJSONObject\<close> and \<^verbatim>\<open>SerializeJSONArray\<close> in their places. The first
  argument is the property list, \<open>None\<close> when the replacer is \<^verbatim>\<open>undefined\<close>. The
  result \<open>None\<close> is \<^verbatim>\<open>undefined\<close>: a property with that value is left out of an
  object and written \<^verbatim>\<open>null\<close> in an array. With a property list, the keys of every
  object at every depth are the keys of that list, in its order.
\<close>

function SerializeJSONProperty :: "jsstring list option \<Rightarrow> unknown \<Rightarrow> jsstring option" where
  "SerializeJSONProperty pl JUndefined = None"
| "SerializeJSONProperty pl JNull = Some (js ''null'')"
| "SerializeJSONProperty pl (JBoolean b) = Some (if b then js ''true'' else js ''false'')"
| "SerializeJSONProperty pl (JString s) = Some (QuoteJSONString s)"
| "SerializeJSONProperty pl (JNumber n) = Some (Number_toString 10 n)"
| "SerializeJSONProperty pl JNaN = Some (js ''null'')"
| "SerializeJSONProperty pl (JArray elems) =
     (let partial = map (\<lambda>e. case SerializeJSONProperty pl e of
                              None \<Rightarrow> js ''null''
                            | Some strP \<Rightarrow> strP) elems
      in Some (if partial = [] then js ''[]'' else js ''['' @ join (js '','') partial @ js '']''))"
| "SerializeJSONProperty pl (JObject props) =
     (let K = (case pl of Some list \<Rightarrow> list | None \<Rightarrow> map fst props);
          partial = concat (map (\<lambda>P. case map_of props P of
                                         None \<Rightarrow> []
                                       | Some v \<Rightarrow>
                                          (case SerializeJSONProperty pl v of
                                             None \<Rightarrow> []
                                           | Some strP \<Rightarrow> [QuoteJSONString P @ js '':'' @ strP])) K)
      in Some (if partial = [] then js ''{}'' else js ''{'' @ join (js '','') partial @ js ''}''))"
  by pat_completeness auto
termination
proof (relation "measure (\<lambda>(pl, v). size v)")
  show "wf (measure (\<lambda>(pl, v). size v))"
    by simp
next
  fix pl :: "jsstring list option" and elems :: "unknown list" and e :: unknown
  assume "e \<in> set elems"
  then have "size e < Suc (size_list size elems)"
    by (induction elems) auto
  then show "((pl, e), (pl, JArray elems)) \<in> measure (\<lambda>(pl, v). size v)"
    by simp
next
  fix pl :: "jsstring list option" and props :: "(jsstring \<times> unknown) list"
    and K :: "jsstring list" and P :: jsstring and v :: unknown
  assume "map_of props P = Some v"
  then have "(P, v) \<in> set props"
    by (rule map_of_SomeD)
  then have "size v < Suc (size_list (size_prod (\<lambda>_. 0) size) props)"
    by (induction props) auto
  then show "((pl, v), (pl, JObject props)) \<in> measure (\<lambda>(pl, v). size v)"
    by simp
qed

definition JSON_stringify :: "unknown \<Rightarrow> jsstring list option \<Rightarrow> jsstring option" where
  "JSON_stringify v replacer = SerializeJSONProperty (map_option PropertyList replacer) v"

section \<open>\<^verbatim>\<open>src/utils/id-generators.ts\<close>: the fingerprint\<close>

text \<open>
  \<^verbatim>\<open>Object.keys(dataObj)\<close> on a value that is truthy and of type \<^verbatim>\<open>object\<close>: the keys
  of an object, the indices of an array as decimal strings.
\<close>

definition Object_keys :: "unknown \<Rightarrow> jsstring list" where
  "Object_keys v =
     (case v of
        JObject props \<Rightarrow> map fst props
      | JArray elems \<Rightarrow> map (\<lambda>i. Number_toString 10 (int i)) [0 ..< length elems]
      | _ \<Rightarrow> [])"

text \<open>
  \<^verbatim>\<open>dataObj && typeof dataObj === 'object'\<close>: \<^verbatim>\<open>null\<close> has that type and is falsy.
\<close>

definition isObjectLike :: "unknown \<Rightarrow> bool" where
  "isObjectLike v = (case v of JObject _ \<Rightarrow> True | JArray _ \<Rightarrow> True | _ \<Rightarrow> False)"

text \<open>
  The loop over the code units of \<^verbatim>\<open>str\<close>. \<^verbatim>\<open>hash\<close> is a 32-bit integer at the head
  of every iteration: \<^verbatim>\<open>hash << 5\<close> wraps to 32 bits, the subtraction and the addition
  are exact in a double, and \<^verbatim>\<open>hash & hash\<close> takes the sum back to 32 bits, so the new
  value is the word \<open>(hash << 5) - hash + char\<close>; \<open>sint\<close> reads it as the signed
  number JavaScript has.
\<close>

fun hashLoop :: "jsstring \<Rightarrow> 32 word \<Rightarrow> 32 word" where
  "hashLoop [] hash = hash"
| "hashLoop (char # str) hash =
     (let hash = push_bit 5 hash - hash + ucast char;
          hash = hash AND hash
      in hashLoop str hash)"

text \<open>
  The runtime's exceptions. \<^verbatim>\<open>JSON.stringify(undefined)\<close> is \<^verbatim>\<open>undefined\<close>, and
  reading \<^verbatim>\<open>str.length\<close> of it raises a \<^verbatim>\<open>TypeError\<close>.
\<close>

datatype exn = Error jsstring | TypeError

text \<open>
  \<^verbatim>\<open>sort()\<close> without a comparison function orders strings code unit by code unit, a
  proper prefix before its extensions: the lexicographic order of the lists of code
  units, which \<open>sort\<close> uses.
\<close>

definition generateFingerprint :: "unknown \<Rightarrow> exn + jsstring" where
  "generateFingerprint data =
     (let str = JSON_stringify data
                  (if isObjectLike data then Some (sort (Object_keys data)) else None)
      in case str of
           None \<Rightarrow> Inl TypeError
         | Some str \<Rightarrow>
             (let hash = hashLoop str 0
              in Inr (Number_toString 36 (\<bar>sint hash\<bar>))))"

section \<open>The schema-validation engine\<close>

text \<open>
  Modelled from the spec: the schema-validation engine is the library zod, an external
  collaborator whose code is not in the repository; the specification has it parse an
  unknown value against a schema and return the typed value or a list of
  \<^verbatim>\<open>{path, message}\<close> errors. The package reaches it through one method of a schema,
  \<^verbatim>\<open>schema.safeParse(data)\<close>, and reads \<^verbatim>\<open>success\<close>, \<^verbatim>\<open>data\<close>, \<^verbatim>\<open>error\<close>,
  \<^verbatim>\<open>error.errors\<close> and, of each entry, \<^verbatim>\<open>path\<close> and \<^verbatim>\<open>message\<close>.

  In zod 3 every schema is an object of the class \<^verbatim>\<open>ZodType\<close>. The class gives
  \<^verbatim>\<open>safeParse\<close> to all schemas; what a schema adds is its method \<^verbatim>\<open>_parse\<close>, which
  takes the input and its path within the data and returns a status with the parsed
  value (\<open>OK\<close>, or \<open>DIRTY\<close> once a check has failed on a value of the right type) or
  \<open>INVALID\<close>, having recorded its issues in order. A schema is modelled by that
  method, the field \<open>parser\<close>. The method runs functions the caller of the engine
  wrote (the checks of \<^verbatim>\<open>.refine\<close>), and an exception thrown there leaves
  \<^verbatim>\<open>_parse\<close> and \<^verbatim>\<open>safeParse\<close> unhandled: \<open>Inl\<close> carries it.
\<close>

datatype PathSeg = Key jsstring | Index nat

record ZodIssue =
  path :: "PathSeg list"
  message :: jsstring

datatype ZodError = ZodError (errors: "ZodIssue list")

datatype 't SafeParseReturnType = SafeParseSuccess 't | SafeParseError ZodError

datatype 't SyncParseReturnType = OK 't | DIRTY 't | INVALID

record 't ZodSchema =
  parser :: "PathSeg list \<Rightarrow> unknown \<Rightarrow> exn + 't SyncParseReturnType \<times> ZodIssue list"

text \<open>
  Modelled from the spec: \<^verbatim>\<open>ZodType.safeParse\<close> of the engine. It parses at the empty
  path; it is a success with the parsed value when the status is valid and a failure
  with the recorded issues otherwise, and it throws an error of its own when a parse
  that is not valid has recorded no issue.
\<close>

definition safeParse :: "'t ZodSchema \<Rightarrow> unknown \<Rightarrow> exn + 't SafeParseReturnType" where
  "safeParse schema data =
     (case parser schema [] data of
        Inl thrown \<Rightarrow> Inl thrown
      | Inr (result, issues) \<Rightarrow>
          (case result of
             OK v \<Rightarrow> Inr (SafeParseSuccess v)
           | _ \<Rightarrow>
               if issues = []
               then Inl (Error (js ''Validation failed but no issues detected.''))
               else Inr (SafeParseError (ZodError issues))))"

subsection \<open>The schema constructors the package uses\<close>

text \<open>
  Modelled from the spec: the constructors the package's schemas are built from, after
  the documented behaviour of zod 3: \<^verbatim>\<open>z.string()\<close> with \<^verbatim>\<open>.min(n, message?)\<close>,
  \<^verbatim>\<open>z.number()\<close>, \<^verbatim>\<open>z.nativeEnum(E)\<close> for an enum of strings, \<^verbatim>\<open>.optional()\<close>,
  \<^verbatim>\<open>z.record(keys, values)\<close>, \<^verbatim>\<open>z.object(shape)\<close> (unknown keys are stripped) and
  \<^verbatim>\<open>.refine(check, message)\<close>. A check of a string schema and a refinement run on a
  value of the right type even after an earlier check has failed; they do not run on a
  value of the wrong type. The check of a refinement is a function of the caller: it
  returns a boolean or throws.
\<close>

datatype ZodStringCheck = Min nat "jsstring option"

datatype ZodTypeDef =
    ZodString "ZodStringCheck list"
  | ZodNumber
  | ZodNativeEnum "jsstring list"
  | ZodOptional ZodTypeDef
  | ZodRecord ZodTypeDef ZodTypeDef
  | ZodObject "(jsstring \<times> ZodTypeDef) list"
  | ZodEffects ZodTypeDef "unknown \<Rightarrow> exn + bool" jsstring

definition getParsedType :: "unknown \<Rightarrow> jsstring" where
  "getParsedType v =
     (case v of
        JUndefined \<Rightarrow> js ''undefined''
      | JNull \<Rightarrow> js ''null''
      | JBoolean _ \<Rightarrow> js ''boolean''
      | JNumber _ \<Rightarrow> js ''number''
      | JNaN \<Rightarrow> js ''nan''
      | JString _ \<Rightarrow> js ''string''
      | JArray _ \<Rightarrow> js ''array''
      | JObject _ \<Rightarrow> js ''object'')"

definition invalid_type :: "PathSeg list \<Rightarrow> jsstring \<Rightarrow> unknown \<Rightarrow> ZodIssue" where
  "invalid_type p expected received =
     \<lparr>path = p,
      message = (if received = JUndefined then js ''Required''
                 else js ''Expected '' @ expected @ js '', received '' @ getParsedType received)\<rparr>"

definition joinValues :: "jsstring list \<Rightarrow> jsstring" where
  "joinValues vs = join (js '' | '') (map (\<lambda>v. [0x0027] @ v @ [0x0027]) vs)"

definition too_small :: "PathSeg list \<Rightarrow> nat \<Rightarrow> jsstring option \<Rightarrow> ZodIssue" where
  "too_small p minimum msg =
     \<lparr>path = p,
      message = (case msg of
                   Some m \<Rightarrow> m
                 | None \<Rightarrow> js ''String must contain at least '' @ Number_toString 10 (int minimum)
                            @ js '' character(s)'')\<rparr>"

definition isValid :: "'t SyncParseReturnType \<Rightarrow> bool" where
  "isValid r = (case r of OK _ \<Rightarrow> True | _ \<Rightarrow> False)"

definition isAborted :: "'t SyncParseReturnType \<Rightarrow> bool" where
  "isAborted r = (case r of INVALID \<Rightarrow> True | _ \<Rightarrow> False)"

definition isDirty :: "'t SyncParseReturnType \<Rightarrow> bool" where
  "isDirty r = (case r of DIRTY _ \<Rightarrow> True | _ \<Rightarrow> False)"

definition parsedValue :: "unknown SyncParseReturnType \<Rightarrow> unknown" where
  "parsedValue r = (case r of OK v \<Rightarrow> v | DIRTY v \<Rightarrow> v | INVALID \<Rightarrow> JUndefined)"

text \<open>
  Modelled from the spec: \<^verbatim>\<open>ParseStatus.mergeObjectSync\<close> of the engine. A pair
  is the parsed key, the parsed value and whether the key is a property of the input.
  One aborted member aborts the object; otherwise a value that is \<^verbatim>\<open>undefined\<close> is
  kept only where the input had the key.
\<close>

definition mergeObjectSync ::
  "(unknown SyncParseReturnType \<times> unknown SyncParseReturnType \<times> bool) list
   \<Rightarrow> unknown SyncParseReturnType" where
  "mergeObjectSync pairs =
     (if list_ex (\<lambda>(k, v, alwaysSet). isAborted k \<or> isAborted v) pairs then INVALID
      else
        (let finalObject =
               concat (map (\<lambda>(k, v, alwaysSet).
                  case parsedValue k of
                    JString key \<Rightarrow>
                      (if key \<noteq> js ''__proto__'' \<and> (parsedValue v \<noteq> JUndefined \<or> alwaysSet)
                       then [(key, parsedValue v)] else [])
                  | _ \<Rightarrow> []) pairs)
         in if list_ex (\<lambda>(k, v, alwaysSet). isDirty k \<or> isDirty v) pairs
            then DIRTY (JObject finalObject) else OK (JObject finalObject)))"

text \<open>
  Calls made one after the other: the first exception thrown leaves the loop, and the
  results of the calls are kept in order when none throws.
\<close>

fun inOrder :: "(exn + 'a) list \<Rightarrow> exn + 'a list" where
  "inOrder [] = Inr []"
| "inOrder (Inl thrown # calls) = Inl thrown"
| "inOrder (Inr r # calls) =
     (case inOrder calls of Inl thrown \<Rightarrow> Inl thrown | Inr rs \<Rightarrow> Inr (r # rs))"

text \<open>
  Modelled from the spec: the \<^verbatim>\<open>_parse\<close> method of each constructor of the engine,
  on the path of the input within the data and the input. An object schema parses the
  values of its shape's keys in the order of the shape, a record schema each key of the
  input and then its value, in the order of the input's keys.
\<close>

fun parse ::
  "ZodTypeDef \<Rightarrow> PathSeg list \<Rightarrow> unknown \<Rightarrow> exn + unknown SyncParseReturnType \<times> ZodIssue list"
  where
  "parse (ZodString checks) p input =
     (case input of
        JString s \<Rightarrow>
          (let issues = concat (map (\<lambda>check. case check of
                                  Min n msg \<Rightarrow> if length s < n then [too_small p n msg] else [])
                                checks)
           in Inr (if issues = [] then OK input else DIRTY input, issues))
      | _ \<Rightarrow> Inr (INVALID, [invalid_type p (js ''string'') input]))"
| "parse ZodNumber p input =
     (case input of
        JNumber n \<Rightarrow> Inr (OK input, [])
      | _ \<Rightarrow> Inr (INVALID, [invalid_type p (js ''number'') input]))"
| "parse (ZodNativeEnum nativeEnumValues) p input =
     (case input of
        JString s \<Rightarrow>
          (if s \<in> set nativeEnumValues then Inr (OK input, [])
           else Inr (INVALID,
                 [\<lparr>path = p,
                   message = js ''Invalid enum value. Expected '' @ joinValues nativeEnumValues
                             @ js '', received '' @ [0x0027] @ s @ [0x0027]\<rparr>]))
      | JNumber n \<Rightarrow>
          Inr (INVALID,
           [\<lparr>path = p,
             message = js ''Invalid enum value. Expected '' @ joinValues nativeEnumValues
                       @ js '', received '' @ [0x0027] @ Number_toString 10 n @ [0x0027]\<rparr>])
      | _ \<Rightarrow> Inr (INVALID, [invalid_type p (joinValues nativeEnumValues) input]))"
| "parse (ZodOptional innerType) p input =
     (if input = JUndefined then Inr (OK JUndefined, []) else parse innerType p input)"
| "parse (ZodRecord keyType valueType) p input =
     (case input of
        JObject props \<Rightarrow>
          (case inOrder (map (\<lambda>(key, v).
                    case parse keyType (p @ [Key key]) (JString key) of
                      Inl thrown \<Rightarrow> Inl thrown
                    | Inr (k, ki) \<Rightarrow>
                        (case parse valueType (p @ [Key key]) v of
                           Inl thrown \<Rightarrow> Inl thrown
                         | Inr (v', vi) \<Rightarrow> Inr ((k, v', True), ki @ vi))) props) of
             Inl thrown \<Rightarrow> Inl thrown
           | Inr pairs \<Rightarrow> Inr (mergeObjectSync (map fst pairs), concat (map snd pairs)))
      | _ \<Rightarrow> Inr (INVALID, [invalid_type p (js ''object'') input]))"
| "parse (ZodObject shape) p input =
     (case input of
        JObject props \<Rightarrow>
          (case inOrder (map (\<lambda>(key, keyValidator).
                    case parse keyValidator (p @ [Key key]) (Get props key) of
                      Inl thrown \<Rightarrow> Inl thrown
                    | Inr (v, vi) \<Rightarrow>
                        Inr ((OK (JString key), v, key \<in> set (map fst props)), vi)) shape) of
             Inl thrown \<Rightarrow> Inl thrown
           | Inr pairs \<Rightarrow> Inr (mergeObjectSync (map fst pairs), concat (map snd pairs)))
      | _ \<Rightarrow> Inr (INVALID, [invalid_type p (js ''object'') input]))"
| "parse (ZodEffects schema check msg) p input =
     (case parse schema p input of
        Inl thrown \<Rightarrow> Inl thrown
      | Inr (INVALID, issues) \<Rightarrow> Inr (INVALID, issues)
      | Inr (DIRTY v, issues) \<Rightarrow>
          (case check v of
             Inl thrown \<Rightarrow> Inl thrown
           | Inr passed \<Rightarrow>
               Inr (DIRTY v, if passed then issues else issues @ [\<lparr>path = p, message = msg\<rparr>]))
      | Inr (OK v, issues) \<Rightarrow>
          (case check v of
             Inl thrown \<Rightarrow> Inl thrown
           | Inr passed \<Rightarrow>
               (if passed then Inr (OK v, issues)
                else Inr (DIRTY v, issues @ [\<lparr>path = p, message = msg\<rparr>]))))"

text \<open>Modelled from the spec: the schema object of a definition.\<close>

definition zod :: "ZodTypeDef \<Rightarrow> unknown ZodSchema" where
  "zod typeDef = \<lparr>parser = parse typeDef\<rparr>"

section \<open>\<^verbatim>\<open>types.ts\<close>: the lifecycle enum and the metadata schema\<close>

definition ResourceLifecycle :: "jsstring list" where
  "ResourceLifecycle =
     [js ''EPHEMERAL'', js ''PERSISTED'', js ''PROCESSING'', js ''COMPLETED'', js ''FAILED'',
      js ''EXPIRED'', js ''DELETED'']"

definition ResourceMetadataSchema :: "unknown ZodSchema" where
  "ResourceMetadataSchema =
     zod (ZodObject
       [(js ''createdAt'', ZodNumber),
        (js ''updatedAt'', ZodNumber),
        (js ''createdBy'', ZodOptional (ZodString [])),
        (js ''updatedBy'', ZodOptional (ZodString [])),
        (js ''version'', ZodNumber),
        (js ''tags'', ZodOptional (ZodRecord (ZodString []) (ZodString []))),
        (js ''labels'', ZodOptional (ZodRecord (ZodString []) (ZodString []))),
        (js ''id'', ZodOptional (ZodString [])),
        (js ''lifecycle'', ZodOptional (ZodNativeEnum ResourceLifecycle)),
        (js ''fingerprint'', ZodOptional (ZodString [])),
        (js ''expiresAt'', ZodOptional ZodNumber)])"

section \<open>\<^verbatim>\<open>validation.ts\<close>\<close>

text \<open>
  \<^verbatim>\<open>validateWithSchema\<close> calls \<^verbatim>\<open>schema.safeParse(data)\<close> outside any
  \<^verbatim>\<open>try\<close>: an exception of the call is an exception of \<^verbatim>\<open>validateWithSchema\<close>.
\<close>

definition validateWithSchema ::
  "'t ZodSchema \<Rightarrow> unknown \<Rightarrow> exn + ('t, ZodError) Result" where
  "validateWithSchema schema data =
     (case safeParse schema data of
        Inl thrown \<Rightarrow> Inl thrown
      | Inr result \<Rightarrow>
          (case result of
             SafeParseSuccess d \<Rightarrow> Inr (Ok d)
           | SafeParseError e \<Rightarrow> Inr (Err e)))"

text \<open>
  The check of \<^verbatim>\<open>IdSchema\<close> tests \<^verbatim>\<open>typeof val === 'string'\<close> first and throws on
  no value. The checks of the two prefixed schemas call \<^verbatim>\<open>val.startsWith\<close>, which is
  a \<^verbatim>\<open>TypeError\<close> on a value that is not a string.
\<close>

definition IdSchema :: "unknown ZodSchema" where
  "IdSchema =
     zod (ZodEffects (ZodString [Min 1 (Some (js ''ID cannot be empty''))])
            (\<lambda>val. Inr (case val of JString s \<Rightarrow> length (trim s) > 0 | _ \<Rightarrow> False))
            (js ''ID must be a non-empty string''))"

text \<open>The property \<^verbatim>\<open>success\<close> of a result of \<^verbatim>\<open>safeParse\<close>.\<close>

definition isSuccess :: "'t SafeParseReturnType \<Rightarrow> bool" where
  "isSuccess result = (case result of SafeParseSuccess _ \<Rightarrow> True | SafeParseError _ \<Rightarrow> False)"

definition validateId :: "jsstring \<Rightarrow> exn + bool" where
  "validateId id' =
     (case safeParse IdSchema (JString id') of
        Inl thrown \<Rightarrow> Inl thrown
      | Inr result \<Rightarrow> Inr (isSuccess result))"

definition ResourceIdSchema :: "unknown ZodSchema" where
  "ResourceIdSchema =
     zod (ZodEffects (ZodString [Min 1 None])
            (\<lambda>val. case val of JString s \<Rightarrow> Inr (startsWith s (js ''res_'')) | _ \<Rightarrow> Inl TypeError)
            (js ''ResourceId must start with '' @ [0x0022] @ js ''res_'' @ [0x0022]))"

definition EphemeralIdSchema :: "unknown ZodSchema" where
  "EphemeralIdSchema =
     zod (ZodEffects (ZodString [Min 1 None])
            (\<lambda>val. case val of JString s \<Rightarrow> Inr (startsWith s (js ''eph_'')) | _ \<Rightarrow> Inl TypeError)
            (js ''EphemeralId must start with '' @ [0x0022] @ js ''eph_'' @ [0x0022]))"

definition isValidResourceMetadata :: "unknown \<Rightarrow> exn + bool" where
  "isValidResourceMetadata data =
     (case safeParse ResourceMetadataSchema data of
        Inl thrown \<Rightarrow> Inl thrown
      | Inr result \<Rightarrow> Inr (isSuccess result))"



section \<open>Statements of the specification\<close>



text \<open>
  The invariant the specification states of resource metadata, on a validated value:
  \<^verbatim>\<open>updatedAt >= createdAt\<close>, and \<^verbatim>\<open>version >= 1\<close> when present.
\<close>

definition spec_timestamps_ordered :: "unknown \<Rightarrow> bool" where
  "spec_timestamps_ordered data =
     (case data of
        JObject props \<Rightarrow>
          (case (Get props (js ''createdAt''), Get props (js ''updatedAt'')) of
             (JNumber createdAt, JNumber updatedAt) \<Rightarrow> updatedAt \<ge> createdAt
           | _ \<Rightarrow> False)
      | _ \<Rightarrow> False)"

definition spec_version_positive :: "unknown \<Rightarrow> bool" where
  "spec_version_positive data =
     (case data of
        JObject props \<Rightarrow>
          (case Get props (js ''version'') of
             JNumber version \<Rightarrow> version \<ge> 1
           | JUndefined \<Rightarrow> True
           | _ \<Rightarrow> False)
      | _ \<Rightarrow> False)"

text \<open>
  A schema of the constructors in which no refinement occurs: no function of the caller
  runs when it parses.
\<close>

fun withoutRefinement :: "ZodTypeDef \<Rightarrow> bool" where
  "withoutRefinement (ZodString checks) = True"
| "withoutRefinement ZodNumber = True"
| "withoutRefinement (ZodNativeEnum nativeEnumValues) = True"
| "withoutRefinement (ZodOptional innerType) = withoutRefinement innerType"
| "withoutRefinement (ZodRecord keyType valueType) =
     (withoutRefinement keyType \<and> withoutRefinement valueType)"
| "withoutRefinement (ZodObject shape) = list_all (\<lambda>kt. withoutRefinement (snd kt)) shape"
| "withoutRefinement (ZodEffects schema check msg) = False"

text \<open>A flat key-value input: an object whose values are neither objects nor arrays.\<close>

definition isPrimitive :: "unknown \<Rightarrow> bool" where
  "isPrimitive v = (case v of JObject _ \<Rightarrow> False | JArray _ \<Rightarrow> False | _ \<Rightarrow> True)"

definition isFlat :: "(jsstring \<times> unknown) list \<Rightarrow> bool" where
  "isFlat props = list_all (\<lambda>kv. isPrimitive (snd kv)) props"

text \<open>
  An input with the keys of every object, at every depth, cut down to the keys of a
  list: what the claim about nested inputs says the serializer sees.
\<close>

fun restrictKeys :: "jsstring list \<Rightarrow> unknown \<Rightarrow> unknown" where
  "restrictKeys K (JObject props) =
     JObject (map (\<lambda>(key, v). (key, restrictKeys K v)) (filter (\<lambda>kv. fst kv \<in> set K) props))"
| "restrictKeys K (JArray elems) = JArray (map (restrictKeys K) elems)"
| "restrictKeys K v = v"

section \<open>Properties of the Result combinators\<close>

text \<open>
  C3: for every Result \<open>r\<close> and every total function \<open>f\<close>, \<^verbatim>\<open>map(r, f)\<close> on a success
  is a success wrapping \<open>f\<close> applied to the value of \<open>r\<close>; on a failure it is \<open>r\<close>
  unchanged and \<open>f\<close> is never invoked: whatever effect \<open>f\<close> has on the state, the
  state after the call is the state before it. Both implementations, \<^verbatim>\<open>map\<close> of
  \<^verbatim>\<open>result.ts\<close> and \<^verbatim>\<open>Result.map\<close> of \<^verbatim>\<open>types.ts\<close>, behave so.
\<close>

theorem map_success_and_failure:
  "map_result (Ok v) f s = (Ok (fst (f v s)), snd (f v s))
   \<and> map_result (Err e) f s = (Err e, s)
   \<and> Result_map (Ok v) f s = (Ok (fst (f v s)), snd (f v s))
   \<and> Result_map (Err e) f s = (Err e, s)"
  by (simp add: map_result_def Result_map_def ok_def split: prod.split)

text \<open>
  C4: \<^verbatim>\<open>chain\<close> is associative. For every Result \<open>r\<close> and all Result-returning
  functions \<open>f\<close> and \<open>g\<close>, \<^verbatim>\<open>chain(chain(r, f), g)\<close> and
  \<^verbatim>\<open>chain(r, x => chain(f(x), g))\<close> return the same Result and leave the same state,
  for a success and for a failure.
\<close>

theorem chain_associative:
  "(case chain r f s of (r', s') \<Rightarrow> chain r' g s') =
   chain r (\<lambda>x s0. case f x s0 of (r', s') \<Rightarrow> chain r' g s') s"
proof (cases r)
  case (Ok v)
  then show ?thesis
    by (simp add: chain_def)
next
  case (Err e)
  then show ?thesis
    by (simp add: chain_def)
qed

text \<open>
  C5: for every error value \<open>e\<close>, \<^verbatim>\<open>unwrap(err(e))\<close> raises an exception whose payload
  is \<open>e\<close>; on a success \<^verbatim>\<open>unwrap\<close> returns the contained value without raising. The
  same holds of \<^verbatim>\<open>Result.unwrap\<close>.
\<close>

theorem unwrap_raises_error:
  "unwrap (err e) = Inl e
   \<and> unwrap (ok v) = Inr v
   \<and> Result_unwrap (Result_err e) = Inl e
   \<and> Result_unwrap (Result_ok v) = Inr v"
  by (simp add: unwrap_def Result_unwrap_def err_def ok_def Result_err_def Result_ok_def)

section \<open>Properties of the engine's schemas\<close>

text \<open>Calls that all return are the results of the loop, in order.\<close>

lemma inOrder_Inr: "inOrder calls = Inr rs \<Longrightarrow> calls = map Inr rs"
proof (induction calls arbitrary: rs)
  case Nil
  then show ?case by simp
next
  case (Cons c calls)
  then show ?case
    by (cases c) (auto split: sum.splits)
qed

lemma invalid_if_aborted_or_dirty: "isAborted r \<or> isDirty r \<Longrightarrow> \<not> isValid r"
  by (cases r) (simp_all add: isAborted_def isDirty_def isValid_def)

lemma mergeObjectSync_invalid:
  assumes "\<not> isValid (mergeObjectSync pairs)"
  obtains k v a where "(k, v, a) \<in> set pairs" and "\<not> isValid k \<or> \<not> isValid v"
proof -
  from assms have
    "list_ex (\<lambda>(k, v, a). isAborted k \<or> isAborted v) pairs
     \<or> list_ex (\<lambda>(k, v, a). isDirty k \<or> isDirty v) pairs"
    by (auto simp add: mergeObjectSync_def isValid_def Let_def split: if_splits)
  then obtain k v a where "(k, v, a) \<in> set pairs"
    and "(isAborted k \<or> isDirty k) \<or> (isAborted v \<or> isDirty v)"
    by (auto simp add: list_ex_iff)
  then show thesis
    using that invalid_if_aborted_or_dirty by blast
qed

lemma mergeObjectSync_valid_member:
  assumes "isValid (mergeObjectSync pairs)" and "(k, v, a) \<in> set pairs"
  shows "isValid k \<and> isValid v"
proof -
  from assms(1) have "\<not> list_ex (\<lambda>(k, v, a). isAborted k \<or> isAborted v) pairs"
    and "\<not> list_ex (\<lambda>(k, v, a). isDirty k \<or> isDirty v) pairs"
    by (auto simp add: mergeObjectSync_def isValid_def Let_def split: if_splits)
  with assms(2) have "\<not> isAborted k" "\<not> isDirty k" "\<not> isAborted v" "\<not> isDirty v"
    by (auto simp add: list_ex_iff)
  then show ?thesis
    by (cases k; cases v) (simp_all add: isAborted_def isDirty_def isValid_def)
qed

text \<open>The parse of an object schema on an object, member by member.\<close>

lemma parse_ZodObject_members:
  assumes "parse (ZodObject shape) p (JObject props) = Inr (r, issues)"
  obtains pairs where "r = mergeObjectSync (map fst pairs)"
    and "issues = concat (map snd pairs)"
    and "\<And>key t. (key, t) \<in> set shape \<Longrightarrow>
          \<exists>v vi. parse t (p @ [Key key]) (Get props key) = Inr (v, vi)
                \<and> ((OK (JString key), v, key \<in> set (map fst props)), vi) \<in> set pairs"
    and "\<And>pr. pr \<in> set pairs \<Longrightarrow>
          \<exists>key t v vi. (key, t) \<in> set shape
                \<and> parse t (p @ [Key key]) (Get props key) = Inr (v, vi)
                \<and> pr = ((OK (JString key), v, key \<in> set (map fst props)), vi)"
proof -
  let ?f = "\<lambda>(key, keyValidator).
              case parse keyValidator (p @ [Key key]) (Get props key) of
                Inl thrown \<Rightarrow> Inl thrown
              | Inr (v, vi) \<Rightarrow> Inr ((OK (JString key), v, key \<in> set (map fst props)), vi)"
  from assms obtain pairs where ordered: "inOrder (map ?f shape) = Inr pairs"
    and r: "r = mergeObjectSync (map fst pairs)"
    and issues: "issues = concat (map snd pairs)"
    by (auto split: sum.splits)
  from ordered have calls: "map ?f shape = map Inr pairs"
    by (rule inOrder_Inr)
  have from_shape: "\<exists>v vi. parse t (p @ [Key key]) (Get props key) = Inr (v, vi)
                \<and> ((OK (JString key), v, key \<in> set (map fst props)), vi) \<in> set pairs"
    if "(key, t) \<in> set shape" for key t
  proof -
    from that have "?f (key, t) \<in> set (map ?f shape)"
      unfolding set_map by (rule imageI)
    with calls obtain pr where "pr \<in> set pairs" and "?f (key, t) = Inr pr"
      by auto
    then show ?thesis
      by (auto split: sum.splits)
  qed
  have from_pairs: "\<exists>key t v vi. (key, t) \<in> set shape
                \<and> parse t (p @ [Key key]) (Get props key) = Inr (v, vi)
                \<and> pr = ((OK (JString key), v, key \<in> set (map fst props)), vi)"
    if "pr \<in> set pairs" for pr
  proof -
    from that have "Inr pr \<in> set (map Inr pairs)"
      by simp
    with calls obtain kt where "kt \<in> set shape" and "?f kt = Inr pr"
      by (metis (no_types, lifting) imageE set_map)
    moreover obtain key t where "kt = (key, t)"
      by (cases kt)
    ultimately show ?thesis
      by (auto split: sum.splits)
  qed
  from r issues from_shape from_pairs show thesis
    by (rule that)
qed

lemma parse_ZodRecord_members:
  assumes "parse (ZodRecord keyType valueType) p (JObject props) = Inr (r, issues)"
  obtains pairs where "r = mergeObjectSync (map fst pairs)"
    and "issues = concat (map snd pairs)"
    and "\<And>pr. pr \<in> set pairs \<Longrightarrow>
          \<exists>key x k ki v vi. (key, x) \<in> set props
                \<and> parse keyType (p @ [Key key]) (JString key) = Inr (k, ki)
                \<and> parse valueType (p @ [Key key]) x = Inr (v, vi)
                \<and> pr = ((k, v, True), ki @ vi)"
proof -
  let ?f = "\<lambda>(key, v).
              case parse keyType (p @ [Key key]) (JString key) of
                Inl thrown \<Rightarrow> Inl thrown
              | Inr (k, ki) \<Rightarrow>
                  (case parse valueType (p @ [Key key]) v of
                     Inl thrown \<Rightarrow> Inl thrown
                   | Inr (v', vi) \<Rightarrow> Inr ((k, v', True), ki @ vi))"
  from assms obtain pairs where ordered: "inOrder (map ?f props) = Inr pairs"
    and r: "r = mergeObjectSync (map fst pairs)"
    and issues: "issues = concat (map snd pairs)"
    by (auto split: sum.splits)
  from ordered have calls: "map ?f props = map Inr pairs"
    by (rule inOrder_Inr)
  have from_pairs: "\<exists>key x k ki v vi. (key, x) \<in> set props
                \<and> parse keyType (p @ [Key key]) (JString key) = Inr (k, ki)
                \<and> parse valueType (p @ [Key key]) x = Inr (v, vi)
                \<and> pr = ((k, v, True), ki @ vi)"
    if "pr \<in> set pairs" for pr
  proof -
    from that have "Inr pr \<in> set (map Inr pairs)"
      by simp
    with calls obtain kv where "kv \<in> set props" and "?f kv = Inr pr"
      by (metis (no_types, lifting) imageE set_map)
    moreover obtain key x where "kv = (key, x)"
      by (cases kv)
    ultimately show ?thesis
      by (fastforce split: sum.splits)
  qed
  from r issues from_pairs show thesis
    by (rule that)
qed

text \<open>
  Every schema built from the constructors records an issue whenever its parse returns
  and is not valid: by induction over the schema, an object or a record failing through
  one of its members.
\<close>

lemma parse_reports_issue:
  "parse t p input = Inr (r, issues) \<Longrightarrow> \<not> isValid r \<Longrightarrow> issues \<noteq> []"
proof (induction t p input arbitrary: r issues rule: parse.induct)
  case (1 checks p input)
  then show ?case
    by (cases input) (auto simp add: isValid_def Let_def split: if_splits)
next
  case (2 p input)
  then show ?case
    by (cases input) (auto simp add: isValid_def)
next
  case (3 nativeEnumValues p input)
  then show ?case
    by (cases input) (auto simp add: isValid_def split: if_splits)
next
  case (4 innerType p input)
  then show ?case
    by (auto simp add: isValid_def split: if_splits)
next
  case (5 keyType valueType p input)
  show ?case
  proof (cases input)
    case (JObject props)
    from "5.prems"(1) [unfolded JObject] obtain pairs
      where r: "r = mergeObjectSync (map fst pairs)"
        and issues: "issues = concat (map snd pairs)"
        and members: "\<And>pr. pr \<in> set pairs \<Longrightarrow>
          \<exists>key x k ki v vi. (key, x) \<in> set props
                \<and> parse keyType (p @ [Key key]) (JString key) = Inr (k, ki)
                \<and> parse valueType (p @ [Key key]) x = Inr (v, vi)
                \<and> pr = ((k, v, True), ki @ vi)"
      by (rule parse_ZodRecord_members) (rule that)
    from "5.prems"(2) r obtain k v a where "(k, v, a) \<in> set (map fst pairs)"
      and bad: "\<not> isValid k \<or> \<not> isValid v"
      by (auto elim: mergeObjectSync_invalid)
    then obtain pr where pr: "pr \<in> set pairs" and "fst pr = (k, v, a)"
      by auto
    with members [OF pr] obtain key x ki vi where mem: "(key, x) \<in> set props"
      and kparse: "parse keyType (p @ [Key key]) (JString key) = Inr (k, ki)"
      and vparse: "parse valueType (p @ [Key key]) x = Inr (v, vi)"
      and "snd pr = ki @ vi"
      by auto
    from bad "5.IH"(1) [OF JObject mem refl kparse]
      "5.IH"(2) [OF JObject mem refl kparse refl vparse]
    have "ki @ vi \<noteq> []"
      by auto
    with \<open>snd pr = ki @ vi\<close> have "snd pr \<noteq> []"
      by simp
    with pr issues show ?thesis
      by (auto simp add: concat_eq_Nil_conv)
  qed (use "5.prems" in \<open>auto simp add: isValid_def\<close>)
next
  case (6 shape p input)
  show ?case
  proof (cases input)
    case (JObject props)
    from "6.prems"(1) [unfolded JObject] obtain pairs
      where r: "r = mergeObjectSync (map fst pairs)"
        and issues: "issues = concat (map snd pairs)"
        and members: "\<And>pr. pr \<in> set pairs \<Longrightarrow>
          \<exists>key t v vi. (key, t) \<in> set shape
                \<and> parse t (p @ [Key key]) (Get props key) = Inr (v, vi)
                \<and> pr = ((OK (JString key), v, key \<in> set (map fst props)), vi)"
      by (rule parse_ZodObject_members) (rule that)
    from "6.prems"(2) r obtain k v a where "(k, v, a) \<in> set (map fst pairs)"
      and bad: "\<not> isValid k \<or> \<not> isValid v"
      by (auto elim: mergeObjectSync_invalid)
    then obtain pr where pr: "pr \<in> set pairs" and "fst pr = (k, v, a)"
      by auto
    with members [OF pr] obtain key t vi where mem: "(key, t) \<in> set shape"
      and vparse: "parse t (p @ [Key key]) (Get props key) = Inr (v, vi)"
      and "k = OK (JString key)" and "snd pr = vi"
      by auto
    from bad \<open>k = OK (JString key)\<close> "6.IH" [OF JObject mem refl vparse]
    have "vi \<noteq> []"
      by (auto simp add: isValid_def)
    with \<open>snd pr = vi\<close> have "snd pr \<noteq> []"
      by simp
    with pr issues show ?thesis
      by (auto simp add: concat_eq_Nil_conv)
  qed (use "6.prems" in \<open>auto simp add: isValid_def\<close>)
next
  case (7 schema check msg p input)
  then show ?case
    by (auto simp add: isValid_def split: sum.splits prod.splits SyncParseReturnType.splits if_splits)
qed

text \<open>A valid parse records no issue.\<close>

lemma parse_valid_no_issue:
  "parse t p input = Inr (r, issues) \<Longrightarrow> isValid r \<Longrightarrow> issues = []"
proof (induction t p input arbitrary: r issues rule: parse.induct)
  case (1 checks p input)
  then show ?case
    by (cases input) (auto simp add: isValid_def Let_def split: if_splits)
next
  case (2 p input)
  then show ?case
    by (cases input) (auto simp add: isValid_def)
next
  case (3 nativeEnumValues p input)
  then show ?case
    by (cases input) (auto simp add: isValid_def split: if_splits)
next
  case (4 innerType p input)
  then show ?case
    by (auto simp add: isValid_def split: if_splits)
next
  case (5 keyType valueType p input)
  show ?case
  proof (cases input)
    case (JObject props)
    from "5.prems"(1) [unfolded JObject] obtain pairs
      where r: "r = mergeObjectSync (map fst pairs)"
        and issues: "issues = concat (map snd pairs)"
        and members: "\<And>pr. pr \<in> set pairs \<Longrightarrow>
          \<exists>key x k ki v vi. (key, x) \<in> set props
                \<and> parse keyType (p @ [Key key]) (JString key) = Inr (k, ki)
                \<and> parse valueType (p @ [Key key]) x = Inr (v, vi)
                \<and> pr = ((k, v, True), ki @ vi)"
      by (rule parse_ZodRecord_members) (rule that)
    have "snd pr = []" if pr: "pr \<in> set pairs" for pr
    proof -
      from members [OF pr] obtain key x k ki v vi where mem: "(key, x) \<in> set props"
        and kparse: "parse keyType (p @ [Key key]) (JString key) = Inr (k, ki)"
        and vparse: "parse valueType (p @ [Key key]) x = Inr (v, vi)"
        and eq: "pr = ((k, v, True), ki @ vi)"
        by blast
      from pr eq have "(k, v, True) \<in> set (map fst pairs)"
        by force
      moreover from "5.prems"(2) r have "isValid (mergeObjectSync (map fst pairs))"
        by simp
      ultimately have "isValid k \<and> isValid v"
        by (rule mergeObjectSync_valid_member [rotated])
      with "5.IH"(1) [OF JObject mem refl kparse]
        "5.IH"(2) [OF JObject mem refl kparse refl vparse] eq
      show ?thesis
        by simp
    qed
    with issues show ?thesis
      by (simp add: concat_eq_Nil_conv)
  qed (use "5.prems" in \<open>auto simp add: isValid_def\<close>)
next
  case (6 shape p input)
  show ?case
  proof (cases input)
    case (JObject props)
    from "6.prems"(1) [unfolded JObject] obtain pairs
      where r: "r = mergeObjectSync (map fst pairs)"
        and issues: "issues = concat (map snd pairs)"
        and members: "\<And>pr. pr \<in> set pairs \<Longrightarrow>
          \<exists>key t v vi. (key, t) \<in> set shape
                \<and> parse t (p @ [Key key]) (Get props key) = Inr (v, vi)
                \<and> pr = ((OK (JString key), v, key \<in> set (map fst props)), vi)"
      by (rule parse_ZodObject_members) (rule that)
    have "snd pr = []" if pr: "pr \<in> set pairs" for pr
    proof -
      from members [OF pr] obtain key t v vi where mem: "(key, t) \<in> set shape"
        and vparse: "parse t (p @ [Key key]) (Get props key) = Inr (v, vi)"
        and eq: "pr = ((OK (JString key), v, key \<in> set (map fst props)), vi)"
        by blast
      from pr eq have "(OK (JString key), v, key \<in> set (map fst props)) \<in> set (map fst pairs)"
        by force
      moreover from "6.prems"(2) r have "isValid (mergeObjectSync (map fst pairs))"
        by simp
      ultimately have "isValid (OK (JString key)) \<and> isValid v"
        by (rule mergeObjectSync_valid_member [rotated])
      with "6.IH" [OF JObject mem refl vparse] eq
      show ?thesis
        by simp
    qed
    with issues show ?thesis
      by (simp add: concat_eq_Nil_conv)
  qed (use "6.prems" in \<open>auto simp add: isValid_def\<close>)
next
  case (7 schema check msg p input)
  then show ?case
    by (auto simp add: isValid_def split: sum.splits prod.splits SyncParseReturnType.splits if_splits)
qed

text \<open>Every issue lies at or below the path at which it was recorded.\<close>

lemma parse_issue_path:
  "parse t p input = Inr (r, issues) \<Longrightarrow> i \<in> set issues \<Longrightarrow> \<exists>rest. path i = p @ rest"
proof (induction t p input arbitrary: r issues i rule: parse.induct)
  case (1 checks p input)
  then show ?case
    by (cases input)
      (auto simp add: Let_def too_small_def invalid_type_def split: if_splits ZodStringCheck.splits)
next
  case (2 p input)
  then show ?case
    by (cases input) (auto simp add: invalid_type_def)
next
  case (3 nativeEnumValues p input)
  then show ?case
    by (cases input) (auto simp add: invalid_type_def split: if_splits)
next
  case (4 innerType p input)
  then show ?case
    by (auto split: if_splits)
next
  case (5 keyType valueType p input)
  show ?case
  proof (cases input)
    case (JObject props)
    from "5.prems"(1) [unfolded JObject] obtain pairs
      where issues: "issues = concat (map snd pairs)"
        and members: "\<And>pr. pr \<in> set pairs \<Longrightarrow>
          \<exists>key x k ki v vi. (key, x) \<in> set props
                \<and> parse keyType (p @ [Key key]) (JString key) = Inr (k, ki)
                \<and> parse valueType (p @ [Key key]) x = Inr (v, vi)
                \<and> pr = ((k, v, True), ki @ vi)"
      by (rule parse_ZodRecord_members) (rule that)
    from "5.prems"(2) issues obtain pr where pr: "pr \<in> set pairs" and "i \<in> set (snd pr)"
      by auto
    with members [OF pr] obtain key x k ki v vi where mem: "(key, x) \<in> set props"
      and kparse: "parse keyType (p @ [Key key]) (JString key) = Inr (k, ki)"
      and vparse: "parse valueType (p @ [Key key]) x = Inr (v, vi)"
      and "i \<in> set ki \<or> i \<in> set vi"
      by auto
    with "5.IH"(1) [OF JObject mem refl kparse, of i]
      "5.IH"(2) [OF JObject mem refl kparse refl vparse, of i]
    have "\<exists>rest. path i = (p @ [Key key]) @ rest"
      by auto
    then show ?thesis
      by auto
  qed (use "5.prems" in \<open>auto simp add: invalid_type_def\<close>)
next
  case (6 shape p input)
  show ?case
  proof (cases input)
    case (JObject props)
    from "6.prems"(1) [unfolded JObject] obtain pairs
      where issues: "issues = concat (map snd pairs)"
        and members: "\<And>pr. pr \<in> set pairs \<Longrightarrow>
          \<exists>key t v vi. (key, t) \<in> set shape
                \<and> parse t (p @ [Key key]) (Get props key) = Inr (v, vi)
                \<and> pr = ((OK (JString key), v, key \<in> set (map fst props)), vi)"
      by (rule parse_ZodObject_members) (rule that)
    from "6.prems"(2) issues obtain pr where pr: "pr \<in> set pairs" and "i \<in> set (snd pr)"
      by auto
    with members [OF pr] obtain key t v vi where mem: "(key, t) \<in> set shape"
      and vparse: "parse t (p @ [Key key]) (Get props key) = Inr (v, vi)"
      and "i \<in> set vi"
      by auto
    with "6.IH" [OF JObject mem refl vparse, of i]
    have "\<exists>rest. path i = (p @ [Key key]) @ rest"
      by auto
    then show ?thesis
      by auto
  qed (use "6.prems" in \<open>auto simp add: invalid_type_def\<close>)
next
  case (7 schema check msg p input)
  then show ?case
    by (auto split: sum.splits prod.splits SyncParseReturnType.splits if_splits)
qed

lemma ZodObject_valid_field:
  assumes "parse (ZodObject shape) p (JObject props) = Inr (r, issues)"
    and "isValid r" and "(key, t) \<in> set shape"
  shows "\<exists>v vi. parse t (p @ [Key key]) (Get props key) = Inr (v, vi) \<and> isValid v"
proof -
  from assms(1) obtain pairs
    where r: "r = mergeObjectSync (map fst pairs)"
      and members: "\<And>key t. (key, t) \<in> set shape \<Longrightarrow>
          \<exists>v vi. parse t (p @ [Key key]) (Get props key) = Inr (v, vi)
                \<and> ((OK (JString key), v, key \<in> set (map fst props)), vi) \<in> set pairs"
    by (rule parse_ZodObject_members) (rule that)
  from members [OF assms(3)] obtain v vi
    where vparse: "parse t (p @ [Key key]) (Get props key) = Inr (v, vi)"
      and "((OK (JString key), v, key \<in> set (map fst props)), vi) \<in> set pairs"
    by blast
  then have "(OK (JString key), v, key \<in> set (map fst props)) \<in> set (map fst pairs)"
    by force
  moreover from assms(2) r have "isValid (mergeObjectSync (map fst pairs))"
    by simp
  ultimately have "isValid (OK (JString key)) \<and> isValid v"
    by (rule mergeObjectSync_valid_member [rotated])
  with vparse show ?thesis
    by blast
qed

lemma ZodNumber_valid:
  "parse ZodNumber p v = Inr (r, issues) \<Longrightarrow> isValid r \<Longrightarrow> \<exists>n. v = JNumber n"
  by (cases v) (auto simp add: isValid_def)

text \<open>
  An issue of an object schema on an object names a key of the shape whose validator
  rejects the value the input has there.
\<close>

lemma ZodObject_issue_names_field:
  assumes "parse (ZodObject shape) [] (JObject props) = Inr (r, issues)"
    and "i \<in> set issues"
  shows "\<exists>key t rest v vi. path i = Key key # rest \<and> (key, t) \<in> set shape
           \<and> parse t [Key key] (Get props key) = Inr (v, vi) \<and> \<not> isValid v"
proof -
  from assms(1) obtain pairs
    where issues: "issues = concat (map snd pairs)"
      and members: "\<And>pr. pr \<in> set pairs \<Longrightarrow>
          \<exists>key t v vi. (key, t) \<in> set shape
                \<and> parse t ([] @ [Key key]) (Get props key) = Inr (v, vi)
                \<and> pr = ((OK (JString key), v, key \<in> set (map fst props)), vi)"
    by (rule parse_ZodObject_members) (rule that)
  from assms(2) issues obtain pr where pr: "pr \<in> set pairs" and "i \<in> set (snd pr)"
    by auto
  with members [OF pr] obtain key t v vi where mem: "(key, t) \<in> set shape"
    and vparse: "parse t [Key key] (Get props key) = Inr (v, vi)"
    and i: "i \<in> set vi"
    by auto
  from parse_issue_path [OF vparse i] obtain rest where "path i = Key key # rest"
    by auto
  moreover from parse_valid_no_issue [OF vparse] i have "\<not> isValid v"
    by auto
  ultimately show ?thesis
    using mem vparse by blast
qed

text \<open>A failure of \<^verbatim>\<open>safeParse\<close> carries an issue, whatever the schema.\<close>

lemma safeParse_failure_has_issue:
  "safeParse schema data = Inr (SafeParseError e) \<Longrightarrow> errors e \<noteq> []"
  by (auto simp add: safeParse_def split: sum.splits prod.splits SyncParseReturnType.splits
      if_splits)

text \<open>A schema of the constructors returns from \<^verbatim>\<open>safeParse\<close> whenever its parse does.\<close>

lemma safeParse_zod:
  assumes "parse t [] data = Inr (r, issues)"
  shows "safeParse (zod t) data =
           Inr (case r of OK v \<Rightarrow> SafeParseSuccess v | _ \<Rightarrow> SafeParseError (ZodError issues))"
proof (cases "isValid r")
  case True
  then show ?thesis
    using assms by (cases r) (simp_all add: safeParse_def zod_def isValid_def)
next
  case False
  with assms have "issues \<noteq> []"
    by (rule parse_reports_issue)
  with False show ?thesis
    using assms by (cases r) (simp_all add: safeParse_def zod_def isValid_def)
qed

text \<open>A schema without a refinement runs no function of the caller and always returns.\<close>

lemma inOrder_returns:
  "(\<And>c. c \<in> set calls \<Longrightarrow> \<exists>r. c = Inr r) \<Longrightarrow> \<exists>rs. inOrder calls = Inr rs"
proof (induction calls)
  case Nil
  then show ?case by simp
next
  case (Cons c calls)
  then obtain r where "c = Inr r"
    by auto
  moreover from Cons obtain rs where "inOrder calls = Inr rs"
    by auto
  ultimately show ?case
    by simp
qed

lemma parse_withoutRefinement_returns:
  "withoutRefinement t \<Longrightarrow> \<exists>r. parse t p input = Inr r"
proof (induction t p input rule: parse.induct)
  case (1 checks p input)
  then show ?case
    by (cases input) (simp_all add: Let_def)
next
  case (2 p input)
  then show ?case
    by (cases input) simp_all
next
  case (3 nativeEnumValues p input)
  then show ?case
    by (cases input) simp_all
next
  case (4 innerType p input)
  then show ?case
    by simp
next
  case (5 keyType valueType p input)
  show ?case
  proof (cases input)
    case (JObject props)
    let ?f = "\<lambda>(key, v).
              case parse keyType (p @ [Key key]) (JString key) of
                Inl thrown \<Rightarrow> Inl thrown
              | Inr (k, ki) \<Rightarrow>
                  (case parse valueType (p @ [Key key]) v of
                     Inl thrown \<Rightarrow> Inl thrown
                   | Inr (v', vi) \<Rightarrow> Inr ((k, v', True), ki @ vi))"
    have "\<exists>r. c = Inr r" if "c \<in> set (map ?f props)" for c
    proof -
      from that obtain key x where mem: "(key, x) \<in> set props" and c: "c = ?f (key, x)"
        by auto
      from "5.prems" "5.IH"(1) [OF JObject mem refl]
      obtain k ki where kparse: "parse keyType (p @ [Key key]) (JString key) = Inr (k, ki)"
        by auto
      from "5.prems" "5.IH"(2) [OF JObject mem refl kparse refl]
      obtain v vi where "parse valueType (p @ [Key key]) x = Inr (v, vi)"
        by auto
      with kparse c show ?thesis
        by auto
    qed
    then obtain rs where "inOrder (map ?f props) = Inr rs"
      using inOrder_returns by blast
    with JObject show ?thesis
      by simp
  qed simp_all
next
  case (6 shape p input)
  show ?case
  proof (cases input)
    case (JObject props)
    let ?f = "\<lambda>(key, keyValidator).
              case parse keyValidator (p @ [Key key]) (Get props key) of
                Inl thrown \<Rightarrow> Inl thrown
              | Inr (v, vi) \<Rightarrow> Inr ((OK (JString key), v, key \<in> set (map fst props)), vi)"
    have "\<exists>r. c = Inr r" if "c \<in> set (map ?f shape)" for c
    proof -
      from that obtain key t where mem: "(key, t) \<in> set shape" and c: "c = ?f (key, t)"
        by auto
      from "6.prems" mem have "withoutRefinement t"
        by (auto simp add: list_all_iff)
      with "6.IH" [OF JObject mem refl]
      obtain v vi where "parse t (p @ [Key key]) (Get props key) = Inr (v, vi)"
        by auto
      with c show ?thesis
        by auto
    qed
    then obtain rs where "inOrder (map ?f shape) = Inr rs"
      using inOrder_returns by blast
    with JObject show ?thesis
      by simp
  qed simp_all
next
  case (7 schema check msg p input)
  then show ?case
    by simp
qed

lemma validateWithSchema_zod_returns:
  assumes "parse t [] data = Inr r"
  shows "\<exists>result. validateWithSchema (zod t) data = Inr result"
proof -
  obtain st issues where "r = (st, issues)"
    by (cases r)
  with assms safeParse_zod [of t data st issues] show ?thesis
    by (cases st) (simp_all add: validateWithSchema_def)
qed

section \<open>Properties of the validation adapter\<close>

lemmas schema_eval =
  safeParse_def zod_def Get_def js_def mergeObjectSync_def isAborted_def isDirty_def isValid_def
  parsedValue_def invalid_type_def getParsedType_def too_small_def startsWith_def

text \<open>
  A refinement of a string schema whose check returns on every string returns on every
  input: the check runs on strings only.
\<close>

lemma refined_string_returns:
  assumes "\<And>s. \<exists>passed. check (JString s) = Inr passed"
  shows "\<exists>r. parse (ZodEffects (ZodString checks) check msg) p input = Inr r"
proof (cases input)
  case (JString s)
  from assms obtain passed where "check (JString s) = Inr passed"
    by blast
  with JString show ?thesis
    by (simp add: Let_def)
qed simp_all

lemma package_schemas_return:
  "\<exists>result. validateWithSchema IdSchema data = Inr result"
  "\<exists>result. validateWithSchema ResourceIdSchema data = Inr result"
  "\<exists>result. validateWithSchema EphemeralIdSchema data = Inr result"
  "\<exists>result. validateWithSchema ResourceMetadataSchema data = Inr result"
proof -
  have "\<exists>r. parse (ZodEffects (ZodString [Min 1 (Some (js ''ID cannot be empty''))])
            (\<lambda>val. Inr (case val of JString s \<Rightarrow> length (trim s) > 0 | _ \<Rightarrow> False))
            (js ''ID must be a non-empty string'')) [] data = Inr r"
    by (rule refined_string_returns) simp
  then show "\<exists>result. validateWithSchema IdSchema data = Inr result"
    unfolding IdSchema_def by (auto intro: validateWithSchema_zod_returns)
  have "\<exists>r. parse (ZodEffects (ZodString [Min 1 None])
            (\<lambda>val. case val of JString s \<Rightarrow> Inr (startsWith s (js ''res_'')) | _ \<Rightarrow> Inl TypeError)
            (js ''ResourceId must start with '' @ [0x0022] @ js ''res_'' @ [0x0022])) [] data = Inr r"
    by (rule refined_string_returns) simp
  then show "\<exists>result. validateWithSchema ResourceIdSchema data = Inr result"
    unfolding ResourceIdSchema_def by (auto intro: validateWithSchema_zod_returns)
  have "\<exists>r. parse (ZodEffects (ZodString [Min 1 None])
            (\<lambda>val. case val of JString s \<Rightarrow> Inr (startsWith s (js ''eph_'')) | _ \<Rightarrow> Inl TypeError)
            (js ''EphemeralId must start with '' @ [0x0022] @ js ''eph_'' @ [0x0022])) [] data = Inr r"
    by (rule refined_string_returns) simp
  then show "\<exists>result. validateWithSchema EphemeralIdSchema data = Inr result"
    unfolding EphemeralIdSchema_def by (auto intro: validateWithSchema_zod_returns)
  have "\<exists>r. parse (ZodObject
       [(js ''createdAt'', ZodNumber),
        (js ''updatedAt'', ZodNumber),
        (js ''createdBy'', ZodOptional (ZodString [])),
        (js ''updatedBy'', ZodOptional (ZodString [])),
        (js ''version'', ZodNumber),
        (js ''tags'', ZodOptional (ZodRecord (ZodString []) (ZodString []))),
        (js ''labels'', ZodOptional (ZodRecord (ZodString []) (ZodString []))),
        (js ''id'', ZodOptional (ZodString [])),
        (js ''lifecycle'', ZodOptional (ZodNativeEnum ResourceLifecycle)),
        (js ''fingerprint'', ZodOptional (ZodString [])),
        (js ''expiresAt'', ZodOptional ZodNumber)]) [] data = Inr r"
    by (rule parse_withoutRefinement_returns) simp
  then show "\<exists>result. validateWithSchema ResourceMetadataSchema data = Inr result"
    unfolding ResourceMetadataSchema_def by (auto intro: validateWithSchema_zod_returns)
qed

text \<open>
  C1, as stated: for every schema and every input value \<^verbatim>\<open>validateWithSchema(schema, data)\<close>
  never throws. It does: the call of \<^verbatim>\<open>schema.safeParse\<close> stands in no \<^verbatim>\<open>try\<close>, and
  on the schema \<^verbatim>\<open>z.string().refine(() => { throw new Error('boom') }, 'never')\<close> and the
  input \<^verbatim>\<open>"a"\<close> the exception of the refinement leaves \<^verbatim>\<open>validateWithSchema\<close>.
\<close>

theorem validateWithSchema_throws_counterexample:
  "validateWithSchema
     (zod (ZodEffects (ZodString []) (\<lambda>val. Inl (Error (js ''boom''))) (js ''never'')))
     (JString (js ''a''))
   = Inl (Error (js ''boom''))"
  by (simp add: validateWithSchema_def schema_eval)

text \<open>
  C1, amended: for every schema and every input value \<^verbatim>\<open>validateWithSchema(schema, data)\<close>
  throws exactly what \<^verbatim>\<open>schema.safeParse(data)\<close> throws and nothing of its own, and on
  plain data (\<^verbatim>\<open>undefined\<close>, \<^verbatim>\<open>null\<close>, booleans, integers and \<^verbatim>\<open>NaN\<close>, strings, and the
  arrays and objects of data properties built from these) it never throws for the
  schemas this package defines: their refinements run on strings only and return there. Whenever \<^verbatim>\<open>safeParse\<close> returns,
  it is a success Result wrapping the parsed value exactly when the engine reports that
  \<open>data\<close> conforms, and otherwise a failure Result whose error is the engine's error
  object; that object has at least one entry, whatever the schema, and every entry
  carries a path (the empty path when the input itself is at fault). When an object
  schema of the engine's constructors rejects an object, the path of every entry begins
  with a key of the schema whose validator rejects the value the input has at that key.
\<close>

theorem validateWithSchema_result:
  "(validateWithSchema schema data = Inl thrown) = (safeParse schema data = Inl thrown)
   \<and> (validateWithSchema schema data = Inr (Ok v))
       = (safeParse schema data = Inr (SafeParseSuccess v))
   \<and> (validateWithSchema schema data = Inr (Err e))
       = (safeParse schema data = Inr (SafeParseError e))
   \<and> (validateWithSchema schema data = Inr (Err e) \<longrightarrow> errors e \<noteq> [])
   \<and> (validateWithSchema (zod (ZodObject shape)) (JObject props) = Inr (Err e') \<and> i \<in> set (errors e')
        \<longrightarrow> (\<exists>key t rest r issues.
               path i = Key key # rest \<and> (key, t) \<in> set shape
               \<and> parse t [Key key] (Get props key) = Inr (r, issues) \<and> \<not> isValid r))
   \<and> (\<exists>result. validateWithSchema IdSchema data = Inr result)
   \<and> (\<exists>result. validateWithSchema ResourceIdSchema data = Inr result)
   \<and> (\<exists>result. validateWithSchema EphemeralIdSchema data = Inr result)
   \<and> (\<exists>result. validateWithSchema ResourceMetadataSchema data = Inr result)"
proof -
  have thrown: "(validateWithSchema schema data = Inl thrown) = (safeParse schema data = Inl thrown)"
    by (auto simp add: validateWithSchema_def split: sum.splits SafeParseReturnType.splits)
  have success: "(validateWithSchema schema data = Inr (Ok v))
       = (safeParse schema data = Inr (SafeParseSuccess v))"
    by (auto simp add: validateWithSchema_def split: sum.splits SafeParseReturnType.splits)
  have failure: "(validateWithSchema schema data = Inr (Err e))
       = (safeParse schema data = Inr (SafeParseError e))"
    by (auto simp add: validateWithSchema_def split: sum.splits SafeParseReturnType.splits)
  have entry: "errors e \<noteq> []" if "validateWithSchema schema data = Inr (Err e)"
    using that failure safeParse_failure_has_issue by blast
  have field: "\<exists>key t rest r issues.
               path i = Key key # rest \<and> (key, t) \<in> set shape
               \<and> parse t [Key key] (Get props key) = Inr (r, issues) \<and> \<not> isValid r"
    if "validateWithSchema (zod (ZodObject shape)) (JObject props) = Inr (Err e')"
      and "i \<in> set (errors e')"
  proof -
    from that(1) have "safeParse (zod (ZodObject shape)) (JObject props) = Inr (SafeParseError e')"
      by (auto simp add: validateWithSchema_def split: sum.splits SafeParseReturnType.splits)
    then obtain r where "parse (ZodObject shape) [] (JObject props) = Inr (r, errors e')"
      by (auto simp add: safeParse_def zod_def simp del: parse.simps
          split: sum.splits prod.splits SyncParseReturnType.splits if_splits)
    from ZodObject_issue_names_field [OF this that(2)] show ?thesis
      by blast
  qed
  from thrown success failure entry field package_schemas_return [of data] show ?thesis
    by blast
qed

theorem validateWithSchema_result_witness:
  "validateWithSchema ResourceMetadataSchema
     (JObject [(js ''createdAt'', JString (js ''x'')), (js ''updatedAt'', JNumber 1),
               (js ''version'', JNumber 1)])
   = Inr (Err (ZodError [\<lparr>path = [Key (js ''createdAt'')],
                          message = js ''Expected number, received string''\<rparr>]))
   \<and> errors (ZodError [\<lparr>path = [Key (js ''createdAt'')],
                        message = js ''Expected number, received string''\<rparr>]) \<noteq> []
   \<and> (\<exists>key t rest r issues.
         path \<lparr>path = [Key (js ''createdAt'')],
                message = js ''Expected number, received string''\<rparr> = Key key # rest
         \<and> parse t [Key key]
               (Get [(js ''createdAt'', JString (js ''x'')), (js ''updatedAt'', JNumber 1),
                     (js ''version'', JNumber 1)] key) = Inr (r, issues)
         \<and> \<not> isValid r)"
proof -
  have fails: "validateWithSchema ResourceMetadataSchema
     (JObject [(js ''createdAt'', JString (js ''x'')), (js ''updatedAt'', JNumber 1),
               (js ''version'', JNumber 1)])
   = Inr (Err (ZodError [\<lparr>path = [Key (js ''createdAt'')],
                          message = js ''Expected number, received string''\<rparr>]))"
    by (simp add: validateWithSchema_def ResourceMetadataSchema_def schema_eval)
  from fails
  have nonempty: "errors (ZodError [\<lparr>path = [Key (js ''createdAt'')],
                           message = js ''Expected number, received string''\<rparr>]) \<noteq> []"
    by (rule validateWithSchema_result
        [THEN conjunct2, THEN conjunct2, THEN conjunct2, THEN conjunct1, THEN mp])
  have "\<lparr>path = [Key (js ''createdAt'')], message = js ''Expected number, received string''\<rparr>
        \<in> set (errors (ZodError [\<lparr>path = [Key (js ''createdAt'')],
                           message = js ''Expected number, received string''\<rparr>]))"
    by simp
  with fails [unfolded ResourceMetadataSchema_def]
    validateWithSchema_result
      [THEN conjunct2, THEN conjunct2, THEN conjunct2, THEN conjunct2, THEN conjunct1, THEN mp,
       OF conjI]
  have "\<exists>key t rest r issues.
         path \<lparr>path = [Key (js ''createdAt'')],
                message = js ''Expected number, received string''\<rparr> = Key key # rest
         \<and> (key, t) \<in> set
       [(js ''createdAt'', ZodNumber),
        (js ''updatedAt'', ZodNumber),
        (js ''createdBy'', ZodOptional (ZodString [])),
        (js ''updatedBy'', ZodOptional (ZodString [])),
        (js ''version'', ZodNumber),
        (js ''tags'', ZodOptional (ZodRecord (ZodString []) (ZodString []))),
        (js ''labels'', ZodOptional (ZodRecord (ZodString []) (ZodString []))),
        (js ''id'', ZodOptional (ZodString [])),
        (js ''lifecycle'', ZodOptional (ZodNativeEnum ResourceLifecycle)),
        (js ''fingerprint'', ZodOptional (ZodString [])),
        (js ''expiresAt'', ZodOptional ZodNumber)]
         \<and> parse t [Key key]
               (Get [(js ''createdAt'', JString (js ''x'')), (js ''updatedAt'', JNumber 1),
                     (js ''version'', JNumber 1)] key) = Inr (r, issues)
         \<and> \<not> isValid r"
    by blast
  then have "\<exists>key t rest r issues.
         path \<lparr>path = [Key (js ''createdAt'')],
                message = js ''Expected number, received string''\<rparr> = Key key # rest
         \<and> parse t [Key key]
               (Get [(js ''createdAt'', JString (js ''x'')), (js ''updatedAt'', JNumber 1),
                     (js ''version'', JNumber 1)] key) = Inr (r, issues)
         \<and> \<not> isValid r"
    by blast
  with fails nonempty show ?thesis
    by (intro conjI)
qed




section \<open>Properties of the identifier validators\<close>

lemma startsWith_iff: "startsWith str searchString = (\<exists>rest. str = searchString @ rest)"
  unfolding startsWith_def
  by (metis append_eq_conv_conj)

lemma ResourceIdSchema_string:
  "\<exists>r. safeParse ResourceIdSchema (JString s) = Inr r
       \<and> isSuccess r = (s \<noteq> [] \<and> startsWith s (js ''res_''))"
  by (auto simp add: ResourceIdSchema_def safeParse_def zod_def isSuccess_def Let_def too_small_def
      split: prod.splits SyncParseReturnType.splits)

text \<open>
  C6: the resource-identifier validator \<^verbatim>\<open>ResourceIdSchema\<close> accepts a string if and
  only if it begins with the literal prefix \<^verbatim>\<open>res_\<close>; it accepts \<^verbatim>\<open>"res_123"\<close> and
  rejects \<^verbatim>\<open>"eph_123"\<close> and the empty string.
\<close>

theorem ResourceIdSchema_accepts_prefix:
  "(\<exists>r. safeParse ResourceIdSchema (JString s) = Inr r
        \<and> isSuccess r = (\<exists>rest. s = js ''res_'' @ rest))
   \<and> (\<exists>r. safeParse ResourceIdSchema (JString (js ''res_123'')) = Inr r \<and> isSuccess r)
   \<and> (\<exists>r. safeParse ResourceIdSchema (JString (js ''eph_123'')) = Inr r \<and> \<not> isSuccess r)
   \<and> (\<exists>r. safeParse ResourceIdSchema (JString (js '''')) = Inr r \<and> \<not> isSuccess r)"
proof -
  have nonempty: "startsWith s (js ''res_'') \<Longrightarrow> s \<noteq> []" for s
    by (auto simp add: startsWith_def js_def)
  have main: "\<exists>r. safeParse ResourceIdSchema (JString s) = Inr r
        \<and> isSuccess r = startsWith s (js ''res_'')" for s
    using ResourceIdSchema_string [of s] nonempty [of s] by blast
  have "startsWith (js ''res_123'') (js ''res_'')" "\<not> startsWith (js ''eph_123'') (js ''res_'')"
    "\<not> startsWith (js '''') (js ''res_'')"
    by (simp_all add: startsWith_def js_def)
  with main [of "js ''res_123''"] main [of "js ''eph_123''"] main [of "js ''''"]
  have "\<exists>r. safeParse ResourceIdSchema (JString (js ''res_123'')) = Inr r \<and> isSuccess r"
    "\<exists>r. safeParse ResourceIdSchema (JString (js ''eph_123'')) = Inr r \<and> \<not> isSuccess r"
    "\<exists>r. safeParse ResourceIdSchema (JString (js '''')) = Inr r \<and> \<not> isSuccess r"
    by auto
  then show ?thesis
    using main [of s] startsWith_iff [of s "js ''res_''"] by simp
qed

lemma validateId_string: "validateId s = Inr (s \<noteq> [] \<and> trim s \<noteq> [])"
  by (auto simp add: validateId_def IdSchema_def safeParse_def zod_def isSuccess_def Let_def
      too_small_def split: prod.splits SyncParseReturnType.splits)

lemma dropWhile_preserves_ex:
  "(\<exists>x \<in> set (dropWhile P xs). \<not> P x) = (\<exists>x \<in> set xs. \<not> P x)"
  by (induction xs) auto

lemma trim_nonempty_iff: "(trim s \<noteq> []) = list_ex (\<lambda>c. \<not> isWhiteSpace c) s"
proof -
  have "(trim s \<noteq> []) = (\<exists>x \<in> set (rev (dropWhile isWhiteSpace s)). \<not> isWhiteSpace x)"
    by (simp add: trim_def dropWhile_eq_Nil_conv)
  also have "\<dots> = (\<exists>x \<in> set s. \<not> isWhiteSpace x)"
    by (simp add: dropWhile_preserves_ex)
  finally show ?thesis
    by (simp add: list_ex_iff)
qed

text \<open>
  C7: for every string \<open>s\<close>, \<^verbatim>\<open>validateId(s)\<close> is true if and only if \<open>s\<close> is non-empty
  after trimming white space, that is, if and only if \<open>s\<close> has a code unit that is not
  white space; \<^verbatim>\<open>validateId("")\<close> and \<^verbatim>\<open>validateId("  ")\<close> are false and
  \<^verbatim>\<open>validateId("abc")\<close> is true.
\<close>

theorem validateId_iff_trim_nonempty:
  "validateId s = Inr (trim s \<noteq> [])
   \<and> validateId s = Inr (list_ex (\<lambda>c. \<not> isWhiteSpace c) s)
   \<and> validateId (js '''') = Inr False
   \<and> validateId (js ''  '') = Inr False
   \<and> validateId (js ''abc'') = Inr True"
proof -
  have nonempty: "trim s \<noteq> [] \<Longrightarrow> s \<noteq> []" for s
    by (auto simp add: trim_def)
  have main: "validateId s = Inr (trim s \<noteq> [])" for s
    using validateId_string [of s] nonempty [of s] by auto
  have "validateId (js '''') = Inr False" "validateId (js ''  '') = Inr False"
    "validateId (js ''abc'') = Inr True"
    by (simp_all add: main trim_def js_def isWhiteSpace_def)
  then show ?thesis
    using main [of s] trim_nonempty_iff [of s] by simp
qed

section \<open>Properties of the metadata validation\<close>

lemma isValidResourceMetadata_field:
  assumes "isValidResourceMetadata (JObject props) = Inr True"
    and "(key, t) \<in> set
       [(js ''createdAt'', ZodNumber),
        (js ''updatedAt'', ZodNumber),
        (js ''createdBy'', ZodOptional (ZodString [])),
        (js ''updatedBy'', ZodOptional (ZodString [])),
        (js ''version'', ZodNumber),
        (js ''tags'', ZodOptional (ZodRecord (ZodString []) (ZodString []))),
        (js ''labels'', ZodOptional (ZodRecord (ZodString []) (ZodString []))),
        (js ''id'', ZodOptional (ZodString [])),
        (js ''lifecycle'', ZodOptional (ZodNativeEnum ResourceLifecycle)),
        (js ''fingerprint'', ZodOptional (ZodString [])),
        (js ''expiresAt'', ZodOptional ZodNumber)]"
  shows "\<exists>r issues. parse t [Key key] (Get props key) = Inr (r, issues) \<and> isValid r"
proof -
  from assms(1) obtain r issues where "parse (ZodObject
       [(js ''createdAt'', ZodNumber),
        (js ''updatedAt'', ZodNumber),
        (js ''createdBy'', ZodOptional (ZodString [])),
        (js ''updatedBy'', ZodOptional (ZodString [])),
        (js ''version'', ZodNumber),
        (js ''tags'', ZodOptional (ZodRecord (ZodString []) (ZodString []))),
        (js ''labels'', ZodOptional (ZodRecord (ZodString []) (ZodString []))),
        (js ''id'', ZodOptional (ZodString [])),
        (js ''lifecycle'', ZodOptional (ZodNativeEnum ResourceLifecycle)),
        (js ''fingerprint'', ZodOptional (ZodString [])),
        (js ''expiresAt'', ZodOptional ZodNumber)]) [] (JObject props) = Inr (r, issues)"
    and "isValid r"
    by (auto simp add: isValidResourceMetadata_def ResourceMetadataSchema_def safeParse_def
        zod_def isSuccess_def isValid_def
        simp del: parse.simps split: sum.splits prod.splits SyncParseReturnType.splits if_splits)
  from ZodObject_valid_field [OF this assms(2)] show ?thesis
    by simp
qed

lemma isValidResourceMetadata_is_object:
  assumes "isValidResourceMetadata data = Inr True"
  obtains props where "data = JObject props"
  using assms
  by (cases data)
    (simp_all add: isValidResourceMetadata_def ResourceMetadataSchema_def safeParse_def zod_def
      isSuccess_def)

text \<open>
  C9, as stated: every value the metadata validation accepts has
  \<^verbatim>\<open>updatedAt >= createdAt\<close> and \<^verbatim>\<open>version >= 1\<close>. It does not: the validation accepts
  \<^verbatim>\<open>{createdAt: 10, updatedAt: 5, version: 0}\<close>, which breaks both parts.
\<close>

theorem ResourceMetadata_invariant_counterexample:
  "isValidResourceMetadata
     (JObject [(js ''createdAt'', JNumber 10), (js ''updatedAt'', JNumber 5),
               (js ''version'', JNumber 0)]) = Inr True
   \<and> \<not> spec_timestamps_ordered
     (JObject [(js ''createdAt'', JNumber 10), (js ''updatedAt'', JNumber 5),
               (js ''version'', JNumber 0)])
   \<and> \<not> spec_version_positive
     (JObject [(js ''createdAt'', JNumber 10), (js ''updatedAt'', JNumber 5),
               (js ''version'', JNumber 0)])"
  by (simp add: isValidResourceMetadata_def ResourceMetadataSchema_def isSuccess_def
      spec_timestamps_ordered_def spec_version_positive_def schema_eval)

text \<open>
  C9, amended: every value the metadata validation accepts is an object whose
  \<^verbatim>\<open>createdAt\<close>, \<^verbatim>\<open>updatedAt\<close> and \<^verbatim>\<open>version\<close> are numbers other than
  \<^verbatim>\<open>NaN\<close>; the validation compares no two of them and bounds none: an object of these
  three properties is accepted whatever three integers they are, and rejected when one
  of them is \<^verbatim>\<open>NaN\<close>.
\<close>

theorem isValidResourceMetadata_shape:
  "(isValidResourceMetadata data = Inr True \<longrightarrow>
      (\<exists>props createdAt updatedAt version.
          data = JObject props
          \<and> Get props (js ''createdAt'') = JNumber createdAt
          \<and> Get props (js ''updatedAt'') = JNumber updatedAt
          \<and> Get props (js ''version'') = JNumber version))
   \<and> isValidResourceMetadata
        (JObject [(js ''createdAt'', JNumber c), (js ''updatedAt'', JNumber u),
                  (js ''version'', JNumber n)]) = Inr True
   \<and> isValidResourceMetadata
        (JObject [(js ''createdAt'', JNaN), (js ''updatedAt'', JNumber u),
                  (js ''version'', JNumber n)]) = Inr False"
proof (intro conjI impI)
  assume valid: "isValidResourceMetadata data = Inr True"
  then obtain props where data: "data = JObject props"
    by (rule isValidResourceMetadata_is_object)
  note field = isValidResourceMetadata_field [OF valid [unfolded data]]
  have "\<exists>n. Get props (js ''createdAt'') = JNumber n"
    using field [of "js ''createdAt''" ZodNumber] ZodNumber_valid by fastforce
  moreover have "\<exists>n. Get props (js ''updatedAt'') = JNumber n"
    using field [of "js ''updatedAt''" ZodNumber] ZodNumber_valid by fastforce
  moreover have "\<exists>n. Get props (js ''version'') = JNumber n"
    using field [of "js ''version''" ZodNumber] ZodNumber_valid by fastforce
  ultimately show "\<exists>props createdAt updatedAt version.
          data = JObject props
          \<and> Get props (js ''createdAt'') = JNumber createdAt
          \<and> Get props (js ''updatedAt'') = JNumber updatedAt
          \<and> Get props (js ''version'') = JNumber version"
    using data by blast
next
  show "isValidResourceMetadata
        (JObject [(js ''createdAt'', JNumber c), (js ''updatedAt'', JNumber u),
                  (js ''version'', JNumber n)]) = Inr True"
    by (simp add: isValidResourceMetadata_def ResourceMetadataSchema_def isSuccess_def
        schema_eval)
next
  show "isValidResourceMetadata
        (JObject [(js ''createdAt'', JNaN), (js ''updatedAt'', JNumber u),
                  (js ''version'', JNumber n)]) = Inr False"
    by (simp add: isValidResourceMetadata_def ResourceMetadataSchema_def isSuccess_def
        schema_eval)
qed

theorem isValidResourceMetadata_shape_witness:
  "isValidResourceMetadata
     (JObject [(js ''createdAt'', JNumber 10), (js ''updatedAt'', JNumber 5),
               (js ''version'', JNumber 0), (js ''id'', JString (js ''res_1''))]) = Inr True
   \<and> (\<exists>props createdAt updatedAt version.
          JObject [(js ''createdAt'', JNumber 10), (js ''updatedAt'', JNumber 5),
                   (js ''version'', JNumber 0), (js ''id'', JString (js ''res_1''))]
            = JObject props
          \<and> Get props (js ''createdAt'') = JNumber createdAt
          \<and> Get props (js ''updatedAt'') = JNumber updatedAt
          \<and> Get props (js ''version'') = JNumber version)"
proof -
  have valid: "isValidResourceMetadata
     (JObject [(js ''createdAt'', JNumber 10), (js ''updatedAt'', JNumber 5),
               (js ''version'', JNumber 0), (js ''id'', JString (js ''res_1''))]) = Inr True"
    by (simp add: isValidResourceMetadata_def ResourceMetadataSchema_def isSuccess_def
        schema_eval)
  with isValidResourceMetadata_shape
    [of "JObject [(js ''createdAt'', JNumber 10), (js ''updatedAt'', JNumber 5),
                  (js ''version'', JNumber 0), (js ''id'', JString (js ''res_1''))]"]
  show ?thesis
    by blast
qed

section \<open>Properties of the fingerprint\<close>

lemma toStringRadix_base:
  "radix < 2 \<or> n < radix \<Longrightarrow> toStringRadix radix n = [digitChar n]"
  by (simp add: toStringRadix.simps)

lemma toStringRadix_step:
  "\<not> (radix < 2 \<or> n < radix) \<Longrightarrow>
   toStringRadix radix n = toStringRadix radix (n div radix) @ [digitChar (n mod radix)]"
  by (subst toStringRadix.simps) simp

lemma hashLoop_step:
  "hashLoop (char # str) hash = hashLoop str (push_bit 5 hash - hash + ucast char)"
  by (simp add: Let_def)

lemmas fingerprint_eval =
  generateFingerprint_def isObjectLike_def Object_keys_def JSON_stringify_def PropertyList_def
  js_def QuoteJSONString_def quoteCodeUnit_def isLeadingSurrogate_def isTrailingSurrogate_def
  Number_toString_def toStringRadix_base toStringRadix_step digitChar_def hashLoop_step

lemma generateFingerprint_JObject:
  "generateFingerprint (JObject props) =
     (case SerializeJSONProperty (Some (PropertyList (sort (map fst props)))) (JObject props) of
        None \<Rightarrow> Inl TypeError
      | Some str \<Rightarrow> Inr (Number_toString 36 (\<bar>sint (hashLoop str 0)\<bar>)))"
  by (simp add: generateFingerprint_def isObjectLike_def Object_keys_def JSON_stringify_def Let_def
      del: SerializeJSONProperty.simps cong: option.case_cong)

text \<open>
  With a property list, the serialization of an object reads the object only through
  its lookup; the order of its properties does not enter.
\<close>

lemma SerializeJSONProperty_map_of:
  assumes "map_of props = map_of props'"
  shows "SerializeJSONProperty (Some K) (JObject props)
         = SerializeJSONProperty (Some K) (JObject props')"
  using assms by simp

lemma generateFingerprint_permutation:
  assumes "distinct (map fst props)" and "mset props' = mset props"
  shows "generateFingerprint (JObject props') = generateFingerprint (JObject props)"
proof -
  from assms(2) have keys: "mset (map fst props') = mset (map fst props)"
    by (metis mset_map)
  with assms(1) have distinct': "distinct (map fst props')"
    by (metis mset_eq_imp_distinct_iff)
  from keys have sorted: "sort (map fst props') = sort (map fst props)"
    by (metis properties_for_sort sorted_sort mset_sort)
  from assms(2) have "set props' = set props"
    by (rule mset_eq_setD)
  with assms(1) distinct' have "map_of props' = map_of props"
    by (simp add: map_of_inject_set)
  then have "SerializeJSONProperty (Some K) (JObject props')
             = SerializeJSONProperty (Some K) (JObject props)" for K
    by (rule SerializeJSONProperty_map_of)
  with sorted show ?thesis
    by (simp only: generateFingerprint_JObject)
qed

text \<open>
  C8: \<^verbatim>\<open>generateFingerprint\<close> is key-order independent on flat key-value inputs: two
  structurally equal plain objects whose keys are listed in different orders (the
  properties of one are a permutation of the properties of the other) produce the same
  fingerprint; in particular \<^verbatim>\<open>{a: 1, b: 2}\<close> and \<^verbatim>\<open>{b: 2, a: 1}\<close> do.
\<close>

theorem generateFingerprint_key_order:
  assumes "distinct (map fst props)" and "isFlat props" and "mset props' = mset props"
  shows "\<exists>fingerprint. generateFingerprint (JObject props) = Inr fingerprint
                       \<and> generateFingerprint (JObject props') = Inr fingerprint"
proof -
  have "\<exists>fingerprint. generateFingerprint (JObject props) = Inr fingerprint"
    by (simp add: generateFingerprint_def JSON_stringify_def Let_def)
  with generateFingerprint_permutation [OF assms(1) assms(3)] show ?thesis
    by auto
qed

theorem generateFingerprint_key_order_witness:
  "distinct (map fst [(js ''a'', JNumber 1), (js ''b'', JNumber 2)])
   \<and> isFlat [(js ''a'', JNumber 1), (js ''b'', JNumber 2)]
   \<and> mset [(js ''b'', JNumber 2), (js ''a'', JNumber 1)]
       = mset [(js ''a'', JNumber 1), (js ''b'', JNumber 2)]
   \<and> generateFingerprint (JObject [(js ''a'', JNumber 1), (js ''b'', JNumber 2)])
       = generateFingerprint (JObject [(js ''b'', JNumber 2), (js ''a'', JNumber 1)])
   \<and> generateFingerprint (JObject [(js ''a'', JNumber 1), (js ''b'', JNumber 2)])
       = Inr (js ''kz8hg0'')"
proof -
  have hyps: "distinct (map fst [(js ''a'', JNumber 1), (js ''b'', JNumber 2)])"
    "isFlat [(js ''a'', JNumber 1), (js ''b'', JNumber 2)]"
    "mset [(js ''b'', JNumber 2), (js ''a'', JNumber 1)]
       = mset [(js ''a'', JNumber 1), (js ''b'', JNumber 2)]"
    by (simp_all add: js_def isFlat_def isPrimitive_def)
  have "generateFingerprint (JObject [(js ''a'', JNumber 1), (js ''b'', JNumber 2)])
       = Inr (js ''kz8hg0'')"
    by (simp add: fingerprint_eval del: hashLoop.simps(2))
  moreover from generateFingerprint_key_order [OF hyps]
  have "generateFingerprint (JObject [(js ''a'', JNumber 1), (js ''b'', JNumber 2)])
       = generateFingerprint (JObject [(js ''b'', JNumber 2), (js ''a'', JNumber 1)])"
    by (elim exE conjE) (simp only:)
  ultimately show ?thesis
    using hyps by (intro conjI)
qed

text \<open>
  The keys of a nested object that are not in the property list do not reach the
  serialized form, at any depth.
\<close>

lemma map_of_restrictKeys:
  "P \<in> set K \<Longrightarrow>
   map_of (map (\<lambda>(key, v). (key, restrictKeys K v)) (filter (\<lambda>kv. fst kv \<in> set K) props)) P
   = map_option (restrictKeys K) (map_of props P)"
  by (induction props) auto

lemma SerializeJSONProperty_restrictKeys:
  "SerializeJSONProperty (Some K) (restrictKeys K v) = SerializeJSONProperty (Some K) v"
proof (induction "Some K" v rule: SerializeJSONProperty.induct)
  case (7 elems)
  then show ?case
    by (simp add: comp_def cong: map_cong)
next
  case (8 props)
  have "(case map_of (map (\<lambda>(key, v). (key, restrictKeys K v))
                      (filter (\<lambda>kv. fst kv \<in> set K) props)) P of
           None \<Rightarrow> []
         | Some v \<Rightarrow> (case SerializeJSONProperty (Some K) v of
                        None \<Rightarrow> []
                      | Some strP \<Rightarrow> [QuoteJSONString P @ js '':'' @ strP]))
        = (case map_of props P of
           None \<Rightarrow> []
         | Some v \<Rightarrow> (case SerializeJSONProperty (Some K) v of
                        None \<Rightarrow> []
                      | Some strP \<Rightarrow> [QuoteJSONString P @ js '':'' @ strP]))"
    if "P \<in> set K" for P
    using that "8.hyps" [of K P] by (simp add: map_of_restrictKeys split: option.splits)
  then show ?case
    by (simp cong: map_cong)
qed simp_all

lemma restrictKeys_set:
  "set K = set K' \<Longrightarrow> restrictKeys K v = restrictKeys K' v"
  by (induction K v rule: restrictKeys.induct) auto

lemma set_PropertyList: "set (PropertyList replacer) = set replacer"
proof -
  have "set (foldl (\<lambda>list item. if item \<in> set list then list else list @ [item]) acc xs)
        = set acc \<union> set xs" for acc xs :: "jsstring list"
    by (induction xs arbitrary: acc) auto
  then show ?thesis
    by (simp add: PropertyList_def)
qed

text \<open>
  C10: \<^verbatim>\<open>generateFingerprint\<close> hands the sorted list of the top-level keys to the
  serializer as the replacer array, and that list filters the keys of the objects at
  every depth: the fingerprint of an object is the fingerprint of the object with every
  nested key outside the top-level keys removed. So structurally different inputs have
  the same fingerprint: \<^verbatim>\<open>{a: {x: 1}}\<close> and \<^verbatim>\<open>{a: {y: 2}}\<close> both serialize to
  \<^verbatim>\<open>{"a":{}}\<close>, the keys \<^verbatim>\<open>x\<close> and \<^verbatim>\<open>y\<close> dropped.
\<close>

theorem generateFingerprint_nested_collision:
  "generateFingerprint (JObject props)
     = generateFingerprint (restrictKeys (map fst props) (JObject props))
   \<and> generateFingerprint (JObject [(js ''a'', JObject [(js ''x'', JNumber 1)])])
       = Inr (js ''t238jb'')
   \<and> generateFingerprint (JObject [(js ''a'', JObject [(js ''y'', JNumber 2)])])
       = Inr (js ''t238jb'')
   \<and> JObject [(js ''a'', JObject [(js ''x'', JNumber 1)])]
       \<noteq> JObject [(js ''a'', JObject [(js ''y'', JNumber 2)])]
   \<and> JSON_stringify (JObject [(js ''a'', JObject [(js ''x'', JNumber 1)])]) (Some [js ''a''])
       = Some (js ''{'' @ [0x0022] @ js ''a'' @ [0x0022] @ js '':{}}'')
   \<and> JSON_stringify (JObject [(js ''a'', JObject [(js ''y'', JNumber 2)])]) (Some [js ''a''])
       = Some (js ''{'' @ [0x0022] @ js ''a'' @ [0x0022] @ js '':{}}'')"
proof -
  let ?K = "PropertyList (sort (map fst props))"
  define q where
    "q = map (\<lambda>(key, v). (key, restrictKeys (map fst props) v))
           (filter (\<lambda>kv. fst kv \<in> set (map fst props)) props)"
  have restricted: "restrictKeys (map fst props) (JObject props) = JObject q"
    by (simp add: q_def)
  have keys: "map fst q = map fst props"
    unfolding q_def by (induction props) (auto simp add: case_prod_beta)
  have "set ?K = set (map fst props)"
    by (simp add: set_PropertyList)
  then have "restrictKeys ?K (JObject props) = JObject q"
    using restricted by (simp only: restrictKeys_set [of ?K "map fst props"])
  then have "SerializeJSONProperty (Some ?K) (JObject props)
        = SerializeJSONProperty (Some ?K) (JObject q)"
    using SerializeJSONProperty_restrictKeys [of ?K "JObject props"] by simp
  then have "generateFingerprint (JObject props) = generateFingerprint (JObject q)"
    by (simp only: generateFingerprint_JObject keys)
  then have "generateFingerprint (JObject props)
     = generateFingerprint (restrictKeys (map fst props) (JObject props))"
    by (simp only: restricted)
  moreover have "generateFingerprint (JObject [(js ''a'', JObject [(js ''x'', JNumber 1)])])
      = Inr (js ''t238jb'')"
    by (simp add: fingerprint_eval del: hashLoop.simps(2))
  moreover have "generateFingerprint (JObject [(js ''a'', JObject [(js ''y'', JNumber 2)])])
      = Inr (js ''t238jb'')"
    by (simp add: fingerprint_eval del: hashLoop.simps(2))
  moreover have "JObject [(js ''a'', JObject [(js ''x'', JNumber 1)])]
       \<noteq> JObject [(js ''a'', JObject [(js ''y'', JNumber 2)])]"
    by (simp add: js_def)
  moreover have
    "JSON_stringify (JObject [(js ''a'', JObject [(js ''x'', JNumber 1)])]) (Some [js ''a''])
       = Some (js ''{'' @ [0x0022] @ js ''a'' @ [0x0022] @ js '':{}}'')"
    by (simp add: fingerprint_eval del: hashLoop.simps(2))
  moreover have
    "JSON_stringify (JObject [(js ''a'', JObject [(js ''y'', JNumber 2)])]) (Some [js ''a''])
       = Some (js ''{'' @ [0x0022] @ js ''a'' @ [0x0022] @ js '':{}}'')"
    by (simp add: fingerprint_eval del: hashLoop.simps(2))
  ultimately show ?thesis
    by blast
qed

end
